theory Spec2Isabelle
  imports Complex_Main "HOL-Library.AList" "HOL-Library.Char_ord" "HOL-Library.List_Lexorder"
begin

section \<open>Python values, exceptions and messages\<close>

text \<open>
  The values the translator inspects with \<^verbatim>\<open>type\<close> and \<^verbatim>\<open>isinstance\<close>. A float is
  modelled by the real number it denotes: the translator only looks at its type.
  \<^verbatim>\<open>bool\<close> and \<^verbatim>\<open>int\<close> are distinct constructors, as \<^verbatim>\<open>type(True)\<close> is
  \<^verbatim>\<open>bool\<close> and never \<^verbatim>\<open>int\<close>.
\<close>

datatype pyval =
    PNone
  | PBool bool
  | PInt int
  | PFloat real
  | PStr string
  | PList "pyval list"
  | PDict "(string \<times> pyval) list"

text \<open>
  The implementation classes of \<^verbatim>\<open>edgedb.lang.schema.types\<close> that the translator
  names (\<^verbatim>\<open>string.Str\<close>, \<^verbatim>\<open>uuid.UUID\<close>, \<^verbatim>\<open>int.Int\<close>, \<^verbatim>\<open>numeric.Float\<close>,
  \<^verbatim>\<open>numeric.Decimal\<close>, \<^verbatim>\<open>boolean.Bool\<close>), and any other class by its name.
  The suffix keeps the names apart from HOL's own.
\<close>

datatype impl_type = Str_t | UUID_t | Int_t | Float_t | Decimal_t | Bool_t | OtherType string

text \<open>
  A message built by \<^verbatim>\<open>str.format\<close>: the literal text of the format string and the
  formatted arguments, in order. \<open>Repr v\<close> is a \<^verbatim>\<open>{!r}\<close> field, \<open>Plain s\<close> a
  \<^verbatim>\<open>{}\<close> field of a string and \<open>PlainType t\<close> a \<^verbatim>\<open>{}\<close> field of a class.
\<close>

datatype fmt = Lit string | Repr pyval | Plain string | PlainType impl_type

type_synonym message = "fmt list"

datatype exn =
    GraphQLValidationError message
  | SchemaError
  | ValueError message
  | KeyError
  | IndexError
  | AttributeError
  | NameError
  | RecursionError

section \<open>Value validation\<close>

text \<open>
  \<^verbatim>\<open>PY_COERCION_MAP\<close>, keyed by \<^verbatim>\<open>type(val)\<close>: the classes that accept a value of
  that Python type. A type that is no key of the dict gives \<open>None\<close> (the lookup raises
  \<^verbatim>\<open>KeyError\<close>).
\<close>

fun PY_COERCION_MAP :: "pyval \<Rightarrow> impl_type list option" where
  "PY_COERCION_MAP (PStr s) = Some [Str_t, UUID_t]"
| "PY_COERCION_MAP (PInt i) = Some [Int_t, Float_t, Decimal_t, UUID_t]"
| "PY_COERCION_MAP (PFloat r) = Some [Float_t, Decimal_t]"
| "PY_COERCION_MAP (PBool b) = Some [Bool_t]"
| "PY_COERCION_MAP PNone = None"
| "PY_COERCION_MAP (PList vs) = None"
| "PY_COERCION_MAP (PDict kvs) = None"

text \<open>
  The loop of \<^verbatim>\<open>_validate_value\<close> over the values. \<open>issub\<close> is Python's
  \<^verbatim>\<open>issubclass\<close> on the implementation classes, whose hierarchy is defined outside
  the translator; \<^verbatim>\<open>issubclass(base_t, (A, B))\<close> holds when it holds for one of the
  classes of the tuple.
\<close>

fun validate_values ::
  "(impl_type \<Rightarrow> impl_type \<Rightarrow> bool) \<Rightarrow> string \<Rightarrow> pyval list \<Rightarrow> impl_type \<Rightarrow> exn + unit" where
  "validate_values issub name [] base_t = Inr ()"
| "validate_values issub name (val # vals) base_t =
     (case PY_COERCION_MAP val of
        None \<Rightarrow> Inl KeyError
      | Some accepted \<Rightarrow>
          if \<not> list_ex (issub base_t) accepted
          then Inl (GraphQLValidationError
                 [Lit ''value '', Repr val, Lit '' is not of type '', PlainType base_t,
                  Lit '' accepted by '', Repr (PStr name)])
          else validate_values issub name vals base_t)"

definition validate_value ::
  "(impl_type \<Rightarrow> impl_type \<Rightarrow> bool) \<Rightarrow> string \<Rightarrow> pyval \<Rightarrow> impl_type \<Rightarrow> bool \<Rightarrow> exn + unit" where
  "validate_value issub name value base_t as_sequence =
     (if as_sequence
      then (case value of
              PList vals \<Rightarrow> validate_values issub name vals base_t
            | _ \<Rightarrow> Inl (GraphQLValidationError
                       [Lit ''argument '', Repr (PStr name), Lit '' should be a List'']))
      else validate_values issub name [value] base_t)"

section \<open>The source document\<close>

text \<open>
  Modelled from the spec: the node classes of \<^verbatim>\<open>edgedb.lang.graphql.ast\<close>, which are
  not among the sources. The spec's data model gives their fields, and the translator's
  own attribute reads give the names. A literal of any scalar class (string, integer,
  float, boolean, enum, null) is a \<open>ScalarLiteral\<close> holding its Python \<^verbatim>\<open>value\<close>;
  the translator tells apart only list literals, object literals and variables.
  A variable's \<^verbatim>\<open>value\<close> is its name as written, sigil included
  (\<^verbatim>\<open>_process_literal\<close> drops the first character).
\<close>

datatype literal =
    ScalarLiteral pyval
  | ListLiteral "literal list"
  | ObjectLiteral "(string \<times> literal) list"
  | Variable string

text \<open>
  What the attribute \<^verbatim>\<open>value\<close> of a literal node holds: a Python value, or the list of
  child nodes of a list or object literal.
\<close>

datatype pyobj =
    Val pyval
  | Nodes "literal list"
  | ObjectFields "(string \<times> literal) list"

fun node_value :: "literal \<Rightarrow> pyobj" where
  "node_value (ScalarLiteral v) = Val v"
| "node_value (ListLiteral els) = Nodes els"
| "node_value (ObjectLiteral fields) = ObjectFields fields"
| "node_value (Variable n) = Val (PStr n)"

text \<open>
  \<^verbatim>\<open>topython()\<close> of a default literal. A variable node is taken to have no such
  method (a default is never a variable in the grammar).
\<close>

fun topython :: "literal \<Rightarrow> exn + pyval"
  and topython_list :: "literal list \<Rightarrow> exn + pyval list"
  and topython_fields :: "(string \<times> literal) list \<Rightarrow> exn + (string \<times> pyval) list" where
  "topython (ScalarLiteral v) = Inr v"
| "topython (ListLiteral els) =
     (case topython_list els of Inl e \<Rightarrow> Inl e | Inr vs \<Rightarrow> Inr (PList vs))"
| "topython (ObjectLiteral fields) =
     (case topython_fields fields of Inl e \<Rightarrow> Inl e | Inr kvs \<Rightarrow> Inr (PDict kvs))"
| "topython (Variable n) = Inl AttributeError"
| "topython_list [] = Inr []"
| "topython_list (el # els) =
     (case topython el of
        Inl e \<Rightarrow> Inl e
      | Inr v \<Rightarrow> (case topython_list els of Inl e \<Rightarrow> Inl e | Inr vs \<Rightarrow> Inr (v # vs)))"
| "topython_fields [] = Inr []"
| "topython_fields (kv # kvs) =
     (case topython (snd kv) of
        Inl e \<Rightarrow> Inl e
      | Inr v \<Rightarrow>
          (case topython_fields kvs of
             Inl e \<Rightarrow> Inl e
           | Inr rest \<Rightarrow> Inr ((fst kv, v) # rest)))"

datatype argument = Argument (arg_name: string) (arg_value: literal)

datatype directive = Directive (dir_name: string) (dir_arguments: "argument list")

datatype fragment_spread =
  FragmentSpread (spread_name: string) (spread_directives: "directive list")

text \<open>
  A field's \<^verbatim>\<open>selection_set\<close> is \<^verbatim>\<open>None\<close> when the field has no nested selections
  (\<^verbatim>\<open>_process_field\<close> tests for it); an inline fragment always has one.
\<close>

datatype field =
    Field (field_name: string) (field_arguments: "argument list")
      (field_directives: "directive list") (field_selection_set: "selection list option")
and inline_fragment =
    InlineFragment (inline_on: "string option") (inline_directives: "directive list")
      (inline_selections: "selection list")
and selection =
    SelField field
  | SelInline inline_fragment
  | SelSpread fragment_spread

fun sel_directives :: "selection \<Rightarrow> directive list" where
  "sel_directives (SelField f) = field_directives f"
| "sel_directives (SelInline i) = inline_directives i"
| "sel_directives (SelSpread s) = spread_directives s"

text \<open>
  A declared type: for a list type, \<^verbatim>\<open>name\<close> is the element's type node, otherwise the
  type's name.
\<close>

datatype type_name = TypeName string | ElementType variable_type
and variable_type =
  VariableType (vt_name: type_name) (vt_nullable: bool) (vt_list: bool)

datatype variable_definition =
  VariableDefinition (decl_name: string) (decl_type: variable_type)
    (decl_value: "literal option")

datatype fragment_definition =
  FragmentDefinition (fragdef_name: string) (fragdef_on: "string option")
    (fragdef_selections: "selection list") (fragdef_directives: "directive list")

datatype operation_definition =
  OperationDefinition (op_name: "string option") (op_type: "string option")
    (op_variables: "variable_definition list") (op_directives: "directive list")
    (op_selections: "selection list")

datatype gql_definition =
    DefFragment fragment_definition
  | DefOperation operation_definition

section \<open>The target tree\<close>

text \<open>
  Modelled from the spec: the node classes of \<^verbatim>\<open>edgedb.lang.edgeql.ast\<close> and the
  operators of \<^verbatim>\<open>edgedb.lang.common.ast.ops\<close>, which are not among the sources. Each
  constructor takes the fields the translator passes; a field the translator leaves out is
  \<open>None\<close> (or the empty list for the list fields of a select query).
\<close>

datatype ops = EQ | NE | IN | NOT_IN | AND | UNION

datatype link_node = LinkNode (link_name: string)

datatype step = PathStepNode string | LinkExprNode link_node

datatype expr =
    ConstantNode (const_value: pyval) (const_index: "string option")
  | SequenceNode "expr list"
  | PathNode (path_steps: "step list") (path_pathspec: "pathspec list option")
  | BinOpNode expr ops expr
and pathspec =
    SelectPathSpecNode (spec_expr: step) (spec_where: "expr option")
      (spec_pathspec: "pathspec list option")

datatype target = SelectExprNode expr

datatype namespace_decl = NamespaceAliasDeclNode pyobj

datatype query =
  SelectQueryNode (namespaces: "namespace_decl list") (targets: "target list")
    (query_where: "expr option") (query_op: "ops option")
    (op_larg: "query option") (op_rarg: "query option")

section \<open>The schema\<close>

text \<open>
  Modelled from the spec: the schema and its type objects (\<^verbatim>\<open>edgedb.lang.schema\<close>) are
  not among the sources, so the schema is a record of the operations the translator calls.
  A type object is identified by its qualified name. \<open>schema_get\<close> is \<^verbatim>\<open>schema.get\<close>,
  called with a name or with a pair of module and name; \<open>None\<close> stands for its
  \<^verbatim>\<open>SchemaError\<close>. \<open>resolve_pointer\<close> gives the \<^verbatim>\<open>target\<close> of the resolved pointer.
  \<open>impl_issubclass\<close> is \<^verbatim>\<open>issubclass\<close> on implementation classes.
\<close>

datatype type_descriptor = TypeDescriptor (td_module: string) (td_name: string)

datatype schema_key = ByName string | ByModuleAndName pyobj string

record schema =
  schema_get :: "schema_key \<Rightarrow> type_descriptor option"
  resolve_pointer :: "type_descriptor \<Rightarrow> string \<Rightarrow> exn + type_descriptor"
  issubclass :: "type_descriptor \<Rightarrow> type_descriptor \<Rightarrow> bool"
  get_implementation_type :: "type_descriptor \<Rightarrow> exn + impl_type"
  impl_issubclass :: "impl_type \<Rightarrow> impl_type \<Rightarrow> bool"

section \<open>The translator\<close>

text \<open>
  The translator object: \<^verbatim>\<open>self.schema\<close>, \<^verbatim>\<open>self._fragments\<close> and \<^verbatim>\<open>self._vars\<close>.
  The two dicts are association lists in insertion order; an entry of \<^verbatim>\<open>_vars\<close> is the
  two-element list \<^verbatim>\<open>[val, crit]\<close>. Every method takes the object and, when it assigns to
  it, returns the updated one.
\<close>

type_synonym vars = "(string \<times> pyval \<times> bool) list"

record translator =
  self_schema :: schema
  self_fragments :: "(string \<times> fragment_definition) list"
  self_vars :: vars

definition GQL_OPS_MAP :: "string \<Rightarrow> ops option" where
  "GQL_OPS_MAP = map_of [(''__eq'', EQ), (''__ne'', NE), (''__in'', IN), (''__ni'', NOT_IN)]"

definition GQL_TYPE_NAMES_MAP :: "string \<Rightarrow> impl_type option" where
  "GQL_TYPE_NAMES_MAP =
     map_of [(''String'', Str_t), (''Int'', Int_t), (''Float'', Float_t),
             (''Boolean'', Bool_t), (''ID'', UUID_t)]"

subsection \<open>Directives\<close>

text \<open>
  \<^verbatim>\<open>_get_module\<close>: the \<^verbatim>\<open>module\<close> argument of the last \<^verbatim>\<open>edgedb\<close> directive. The dict
  \<^verbatim>\<open>args\<close> keeps the last argument of a name, and \<^verbatim>\<open>args['module']\<close> raises
  \<^verbatim>\<open>KeyError\<close> when the directive has no such argument.
\<close>

fun get_module_loop :: "pyobj \<Rightarrow> directive list \<Rightarrow> exn + pyobj" where
  "get_module_loop modname [] = Inr modname"
| "get_module_loop modname (d # ds) =
     (if dir_name d = ''edgedb''
      then (case map_of (rev (map (\<lambda>a. (arg_name a, node_value (arg_value a)))
                                (dir_arguments d))) ''module'' of
              None \<Rightarrow> Inl KeyError
            | Some m \<Rightarrow> get_module_loop m ds)
      else get_module_loop modname ds)"

definition get_module :: "directive list \<Rightarrow> exn + pyobj" where
  "get_module directives = get_module_loop (Val PNone) directives"

text \<open>
  The branch of \<^verbatim>\<open>_should_include\<close> that reads the condition: a variable is looked up
  in \<^verbatim>\<open>self._vars\<close> and its entry is marked critical; any other node gives its
  \<^verbatim>\<open>value\<close>.
\<close>

fun read_condition :: "translator \<Rightarrow> literal \<Rightarrow> exn + (pyobj \<times> translator)" where
  "read_condition self (Variable n) =
     (case map_of (self_vars self) n of
        None \<Rightarrow> Inl KeyError
      | Some var \<Rightarrow>
          Inr (Val (fst var),
               self\<lparr>self_vars := AList.update n (fst var, True) (self_vars self)\<rparr>))"
| "read_condition self (ScalarLiteral v) = Inr (Val v, self)"
| "read_condition self (ListLiteral els) = Inr (Nodes els, self)"
| "read_condition self (ObjectLiteral flds) = Inr (ObjectFields flds, self)"

text \<open>\<^verbatim>\<open>isinstance(cond, bool)\<close>, with the boolean when it holds.\<close>

fun as_bool :: "pyobj \<Rightarrow> bool option" where
  "as_bool (Val (PBool b)) = Some b"
| "as_bool other = None"

fun should_include :: "translator \<Rightarrow> directive list \<Rightarrow> exn + (bool \<times> translator)" where
  "should_include self [] = Inr (True, self)"
| "should_include self (d # ds) =
     (if dir_name d = ''include'' \<or> dir_name d = ''skip''
      then (case filter (\<lambda>a. arg_name a = ''if'') (dir_arguments d) of
              [] \<Rightarrow> Inl IndexError
            | a # rest \<Rightarrow>
                (case read_condition self (arg_value a) of
                   Inl e \<Rightarrow> Inl e
                 | Inr (cond, self') \<Rightarrow>
                     (case as_bool cond of
                        None \<Rightarrow>
                          Inl (GraphQLValidationError
                                 [Lit '''if' argument of '', Plain (dir_name d),
                                  Lit '' directive must be a Boolean''])
                      | Some b \<Rightarrow>
                          if dir_name d = ''include'' \<and> \<not> b then Inr (False, self')
                          else if dir_name d = ''skip'' \<and> b then Inr (False, self')
                          else should_include self' ds)))
      else should_include self ds)"

subsection \<open>Variable defaults\<close>

text \<open>
  The class \<^verbatim>\<open>GQL_TYPE_NAMES_MAP\<close> gives for a declaration: keyed by
  \<^verbatim>\<open>decl.type.name.name\<close> for a list type and by \<^verbatim>\<open>decl.type.name\<close> otherwise. A string
  has no attribute \<^verbatim>\<open>name\<close>, and a type node is no key of the dict.
\<close>

definition declared_class :: "variable_type \<Rightarrow> exn + impl_type" where
  "declared_class t =
     (if vt_list t
      then (case vt_name t of
              TypeName s \<Rightarrow> Inl AttributeError
            | ElementType el \<Rightarrow>
                (case vt_name el of
                   TypeName s \<Rightarrow>
                     (case GQL_TYPE_NAMES_MAP s of None \<Rightarrow> Inl KeyError | Some c \<Rightarrow> Inr c)
                 | ElementType el' \<Rightarrow> Inl KeyError))
      else (case vt_name t of
              TypeName s \<Rightarrow>
                (case GQL_TYPE_NAMES_MAP s of None \<Rightarrow> Inl KeyError | Some c \<Rightarrow> Inr c)
            | ElementType el \<Rightarrow> Inl KeyError))"

text \<open>
  The type check of one declaration's value in \<^verbatim>\<open>_populate_variable_defaults\<close>
  (from \<^verbatim>\<open>val = variables[decl.name][0]\<close> on).
\<close>

definition check_declared_value ::
  "schema \<Rightarrow> variable_definition \<Rightarrow> pyval \<Rightarrow> exn + unit" where
  "check_declared_value sch decl val =
     (if val = PNone
      then (if \<not> vt_nullable (decl_type decl)
            then Inl (GraphQLValidationError
                        [Lit ''non-nullable variable '', Repr (PStr (decl_name decl)),
                         Lit '' is missing a value''])
            else Inr ())
      else if vt_list (decl_type decl)
      then (case val of
              PList vals \<Rightarrow>
                (case declared_class (decl_type decl) of
                   Inl e \<Rightarrow> Inl e
                 | Inr c \<Rightarrow> validate_value (impl_issubclass sch) (decl_name decl) val c True)
            | _ \<Rightarrow>
                Inl (GraphQLValidationError
                       [Lit ''variable '', Repr (PStr (decl_name decl)),
                        Lit '' should be a List'']))
      else (case declared_class (decl_type decl) of
              Inl e \<Rightarrow> Inl e
            | Inr c \<Rightarrow> validate_value (impl_issubclass sch) (decl_name decl) val c False))"

text \<open>
  The seeding of one declaration: \<^verbatim>\<open>variables.get(decl.name)\<close> is an entry
  \<^verbatim>\<open>[val, crit]\<close>, which is truthy, or \<^verbatim>\<open>None\<close>; so the branch is taken exactly when the
  name has no entry.
\<close>

definition seed_default :: "vars \<Rightarrow> variable_definition \<Rightarrow> exn + vars" where
  "seed_default variables decl =
     (if map_of variables (decl_name decl) = None
      then (case decl_value decl of
              None \<Rightarrow> Inr (AList.update (decl_name decl) (PNone, False) variables)
            | Some lit \<Rightarrow>
                (case topython lit of
                   Inl e \<Rightarrow> Inl e
                 | Inr v \<Rightarrow> Inr (AList.update (decl_name decl) (v, False) variables)))
      else Inr variables)"

fun populate_loop :: "schema \<Rightarrow> vars \<Rightarrow> variable_definition list \<Rightarrow> exn + vars" where
  "populate_loop sch variables [] = Inr variables"
| "populate_loop sch variables (decl # decls) =
     (if decl_value decl \<noteq> None \<and> \<not> vt_nullable (decl_type decl)
      then Inl (GraphQLValidationError
                  [Lit ''variable '', Repr (PStr (decl_name decl)),
                   Lit '' cannot be non-nullable and have a default''])
      else (case seed_default variables decl of
              Inl e \<Rightarrow> Inl e
            | Inr variables' \<Rightarrow>
                (case map_of variables' (decl_name decl) of
                   None \<Rightarrow> Inl KeyError
                 | Some var \<Rightarrow>
                     (case check_declared_value sch decl (fst var) of
                        Inl e \<Rightarrow> Inl e
                      | Inr u \<Rightarrow> populate_loop sch variables' decls))))"

definition populate_variable_defaults ::
  "translator \<Rightarrow> variable_definition list \<Rightarrow> exn + translator" where
  "populate_variable_defaults self declarations =
     (if declarations = [] then Inr self
      else (case populate_loop (self_schema self) (self_vars self) declarations of
              Inl e \<Rightarrow> Inl e
            | Inr variables \<Rightarrow> Inr (self\<lparr>self_vars := variables\<rparr>)))"

subsection \<open>Literals and arguments\<close>

fun process_literal :: "literal \<Rightarrow> exn + expr"
  and process_literal_list :: "literal list \<Rightarrow> exn + expr list" where
  "process_literal (ListLiteral els) =
     (case process_literal_list els of Inl e \<Rightarrow> Inl e | Inr xs \<Rightarrow> Inr (SequenceNode xs))"
| "process_literal (ObjectLiteral flds) =
     Inl (GraphQLValidationError
            [Lit ''don't know how to translate an Object literal to EdgeQL''])"
| "process_literal (Variable n) = Inr (ConstantNode PNone (Some (drop 1 n)))"
| "process_literal (ScalarLiteral v) = Inr (ConstantNode v None)"
| "process_literal_list [] = Inr []"
| "process_literal_list (el # els) =
     (case process_literal el of
        Inl e \<Rightarrow> Inl e
      | Inr x \<Rightarrow>
          (case process_literal_list els of Inl e \<Rightarrow> Inl e | Inr xs \<Rightarrow> Inr (x # xs)))"

text \<open>\<^verbatim>\<open>getattr(value, 'index', None)\<close>: only a constant node has the attribute.\<close>

fun index_of :: "expr \<Rightarrow> string option" where
  "index_of (ConstantNode v i) = i"
| "index_of other = None"

text \<open>\<^verbatim>\<open>[el.value for el in value.elements]\<close>: only a constant node has the attribute.\<close>

fun element_values :: "expr list \<Rightarrow> exn + pyval list" where
  "element_values [] = Inr []"
| "element_values (ConstantNode v i # els) =
     (case element_values els of Inl e \<Rightarrow> Inl e | Inr vs \<Rightarrow> Inr (v # vs))"
| "element_values (other # els) = Inl AttributeError"

text \<open>
  The decoded value \<^verbatim>\<open>check_value\<close> of \<^verbatim>\<open>_process_arguments\<close>. An index is truthy when
  it is a non-empty string, and then \<^verbatim>\<open>arg.value\<close> is the variable node it came from.
\<close>

definition decode_check_value :: "translator \<Rightarrow> argument \<Rightarrow> expr \<Rightarrow> exn + pyval" where
  "decode_check_value self arg val =
     (if (case index_of val of None \<Rightarrow> False | Some i \<Rightarrow> i \<noteq> [])
      then (case node_value (arg_value arg) of
              Val (PStr n) \<Rightarrow>
                (case map_of (self_vars self) n of
                   None \<Rightarrow> Inl KeyError
                 | Some var \<Rightarrow> Inr (fst var))
            | _ \<Rightarrow> Inl KeyError)
      else (case val of
              SequenceNode els \<Rightarrow>
                (case element_values els of Inl e \<Rightarrow> Inl e | Inr vs \<Rightarrow> Inr (PList vs))
            | ConstantNode v i \<Rightarrow> Inr v
            | _ \<Rightarrow> Inl AttributeError))"

text \<open>The loop of \<^verbatim>\<open>_validate_arg\<close> over \<^verbatim>\<open>path.steps[1:]\<close>.\<close>

fun resolve_steps :: "schema \<Rightarrow> type_descriptor \<Rightarrow> step list \<Rightarrow> exn + type_descriptor" where
  "resolve_steps sch tgt [] = Inr tgt"
| "resolve_steps sch tgt (LinkExprNode l # sts) =
     (case resolve_pointer sch tgt (link_name l) of
        Inl e \<Rightarrow> Inl e
      | Inr t \<Rightarrow> resolve_steps sch t sts)"
| "resolve_steps sch tgt (PathStepNode c # sts) = Inl AttributeError"

text \<open>
  \<^verbatim>\<open>_validate_arg\<close>, on \<^verbatim>\<open>path.steps\<close>. After the loop, \<^verbatim>\<open>step\<close> is the last step
  of \<^verbatim>\<open>path.steps[1:]\<close>, and is unbound when there is none.
\<close>

definition validate_arg :: "translator \<Rightarrow> step list \<Rightarrow> pyval \<Rightarrow> bool \<Rightarrow> exn + unit" where
  "validate_arg self steps val as_sequence =
     (if val = PNone then Inr ()
      else (case steps of
              [] \<Rightarrow> Inl IndexError
            | LinkExprNode l # sts \<Rightarrow> Inl SchemaError
            | PathStepNode c # sts \<Rightarrow>
                (case schema_get (self_schema self) (ByName c) of
                   None \<Rightarrow> Inl SchemaError
                 | Some t0 \<Rightarrow>
                     (case resolve_steps (self_schema self) t0 sts of
                        Inl e \<Rightarrow> Inl e
                      | Inr tgt \<Rightarrow>
                          (case get_implementation_type (self_schema self) tgt of
                             Inl e \<Rightarrow> Inl e
                           | Inr base_t \<Rightarrow>
                               (if sts = [] then Inl NameError
                                else (case last sts of
                                        PathStepNode c' \<Rightarrow> Inl AttributeError
                                      | LinkExprNode l \<Rightarrow>
                                          validate_value
                                            (impl_issubclass (self_schema self))
                                            (link_name l) val base_t as_sequence)))))))"

text \<open>
  The head of the loop of \<^verbatim>\<open>_process_arguments\<close>: the operator of
  \<^verbatim>\<open>arg.name[-4:]\<close> with \<^verbatim>\<open>arg.name[:-4]\<close>, or \<^verbatim>\<open>EQ\<close> with the whole name.
\<close>

definition split_arg_name :: "string \<Rightarrow> ops \<times> string" where
  "split_arg_name n =
     (case GQL_OPS_MAP (drop (length n - 4) n) of
        Some oper \<Rightarrow> (oper, take (length n - 4) n)
      | None \<Rightarrow> (EQ, n))"

text \<open>\<^verbatim>\<open>str.split('__')\<close>: the separators are found from the left and do not overlap.\<close>

fun split_dunder :: "string \<Rightarrow> string list" where
  "split_dunder [] = [[]]"
| "split_dunder [c] = [[c]]"
| "split_dunder (c1 # c2 # cs) =
     (if c1 = CHR ''_'' \<and> c2 = CHR ''_'' then [] # split_dunder cs
      else (case split_dunder (c2 # cs) of
              [] \<Rightarrow> [[c1]]
            | p # ps \<Rightarrow> (c1 # p) # ps))"

text \<open>
  \<^verbatim>\<open>_process_arguments\<close>; \<open>prefix\<close> is what the closure \<^verbatim>\<open>get_path_prefix\<close> returns
  (a new list of the same steps at every call).
\<close>

fun process_arguments ::
  "translator \<Rightarrow> step list \<Rightarrow> argument list \<Rightarrow> exn + (expr \<times> ops \<times> expr) list" where
  "process_arguments self prefix [] = Inr []"
| "process_arguments self prefix (arg # args) =
     (let oper = fst (split_arg_name (arg_name arg));
          name_parts = snd (split_arg_name (arg_name arg));
          steps = prefix @ map (\<lambda>part. LinkExprNode (LinkNode part)) (split_dunder name_parts)
      in (case process_literal (arg_value arg) of
            Inl e \<Rightarrow> Inl e
          | Inr val \<Rightarrow>
              (case decode_check_value self arg val of
                 Inl e \<Rightarrow> Inl e
               | Inr check_value \<Rightarrow>
                   (case validate_arg self steps check_value (oper = IN \<or> oper = NOT_IN) of
                      Inl e \<Rightarrow> Inl e
                    | Inr u \<Rightarrow>
                        (case process_arguments self prefix args of
                           Inl e \<Rightarrow> Inl e
                         | Inr result \<Rightarrow> Inr ((PathNode steps None, oper, val) # result))))))"

fun join_expressions :: "expr list \<Rightarrow> ops \<Rightarrow> exn + expr" where
  "join_expressions [] oper = Inl IndexError"
| "join_expressions [e] oper = Inr e"
| "join_expressions (e0 # e1 # es) oper =
     Inr (foldl (\<lambda>result e. BinOpNode result oper e) (BinOpNode e0 oper e1) es)"

text \<open>
  The tail shared by \<^verbatim>\<open>_process_select_where\<close> and \<^verbatim>\<open>_process_path_where\<close>: one
  binary operation per processed argument, joined with the default \<^verbatim>\<open>AND\<close>.
\<close>

definition where_of_arguments ::
  "translator \<Rightarrow> step list \<Rightarrow> argument list \<Rightarrow> exn + expr option" where
  "where_of_arguments self prefix arguments =
     (case process_arguments self prefix arguments of
        Inl e \<Rightarrow> Inl e
      | Inr triples \<Rightarrow>
          (case join_expressions
                  (map (\<lambda>t. BinOpNode (fst t) (fst (snd t)) (snd (snd t))) triples) AND of
             Inl e \<Rightarrow> Inl e
           | Inr joined \<Rightarrow> Inr (Some joined)))"

text \<open>
  \<^verbatim>\<open>_process_select_where\<close> on a top-level selection. Only a field has
  \<^verbatim>\<open>arguments\<close>.
\<close>

fun process_select_where :: "translator \<Rightarrow> selection \<Rightarrow> exn + expr option" where
  "process_select_where self (SelField f) =
     (if field_arguments f = [] then Inr None
      else where_of_arguments self [PathStepNode (field_name f)] (field_arguments f))"
| "process_select_where self (SelInline i) = Inl AttributeError"
| "process_select_where self (SelSpread s) = Inl AttributeError"

definition process_path_where ::
  "translator \<Rightarrow> string list \<Rightarrow> argument list \<Rightarrow> exn + expr option" where
  "process_path_where self base arguments =
     (if arguments = [] then Inr None
      else (case base of
              [] \<Rightarrow> Inl IndexError
            | b0 # bs \<Rightarrow>
                where_of_arguments self
                  (PathStepNode b0 # map (\<lambda>name. LinkExprNode (LinkNode name)) bs)
                  arguments))"

subsection \<open>Fragments and selection shapes\<close>

text \<open>Truthiness of a Python value, as \<^verbatim>\<open>if frag.name:\<close> tests it.\<close>

fun truthy :: "pyval \<Rightarrow> bool" where
  "truthy PNone = False"
| "truthy (PBool b) = b"
| "truthy (PInt i) = (i \<noteq> 0)"
| "truthy (PFloat r) = (r \<noteq> 0)"
| "truthy (PStr s) = (s \<noteq> [])"
| "truthy (PList vs) = (vs \<noteq> [])"
| "truthy (PDict kvs) = (kvs \<noteq> [])"

text \<open>The loop of \<^verbatim>\<open>_validate_fragment_type\<close> over \<^verbatim>\<open>base[1:]\<close>.\<close>

fun resolve_base :: "schema \<Rightarrow> type_descriptor \<Rightarrow> string list \<Rightarrow> exn + type_descriptor" where
  "resolve_base sch baseType [] = Inr baseType"
| "resolve_base sch baseType (st # sts) =
     (case resolve_pointer sch baseType st of
        Inl e \<Rightarrow> Inl e
      | Inr t \<Rightarrow> resolve_base sch t sts)"

text \<open>
  \<^verbatim>\<open>_validate_fragment_type\<close>, on the three attributes of \<^verbatim>\<open>frag\<close> it reads:
  \<^verbatim>\<open>frag.on\<close>, \<^verbatim>\<open>frag.directives\<close> and \<^verbatim>\<open>frag.name\<close>. The format string of the
  inline message has one field and is given two arguments, so it shows the first,
  \<^verbatim>\<open>frag.name\<close>.
\<close>

definition validate_fragment_type ::
  "translator \<Rightarrow> string list \<Rightarrow> string option \<Rightarrow> directive list \<Rightarrow> pyval \<Rightarrow> exn + unit" where
  "validate_fragment_type self base frag_on frag_directives frag_name =
     (case frag_on of
        None \<Rightarrow> Inr ()
      | Some on_name \<Rightarrow>
          (case get_module frag_directives of
             Inl e \<Rightarrow> Inl e
           | Inr fragmodule \<Rightarrow>
               (case schema_get (self_schema self) (ByModuleAndName fragmodule on_name) of
                  None \<Rightarrow> Inl SchemaError
                | Some fragType \<Rightarrow>
                    (case base of
                       [] \<Rightarrow> Inl IndexError
                     | b0 # bs \<Rightarrow>
                         (case schema_get (self_schema self) (ByName b0) of
                            None \<Rightarrow> Inl SchemaError
                          | Some t0 \<Rightarrow>
                              (case resolve_base (self_schema self) t0 bs of
                                 Inl e \<Rightarrow> Inl e
                               | Inr baseType \<Rightarrow>
                                   if \<not> issubclass (self_schema self) baseType fragType \<and>
                                      \<not> issubclass (self_schema self) fragType baseType
                                   then Inl (GraphQLValidationError
                                          (if truthy frag_name
                                           then [Lit ''fragment '', Repr frag_name,
                                                 Lit '' is incompatible with '',
                                                 Repr (PStr (td_name baseType))]
                                           else [Lit ''inline fragment is incompatible with '',
                                                 Repr frag_name]))
                                   else Inr ()))))))"

text \<open>
  The selection-shape builder. \<open>depth\<close> is the number of nested selection sets Python's
  recursion limit still allows: a fragment that spreads itself recurses until the
  interpreter raises \<^verbatim>\<open>RecursionError\<close>. An inline fragment node has no name, and
  \<^verbatim>\<open>frag.name\<close> is taken to be \<^verbatim>\<open>None\<close> for it, as the inline branch of
  \<^verbatim>\<open>_validate_fragment_type\<close> expects.
\<close>

function (sequential) process_pathspec ::
    "nat \<Rightarrow> translator \<Rightarrow> string list \<Rightarrow> selection list \<Rightarrow> exn + (pathspec list \<times> translator)"
  and process_field ::
    "nat \<Rightarrow> translator \<Rightarrow> string list \<Rightarrow> field \<Rightarrow> exn + (pathspec \<times> translator)"
  and process_inline_fragment ::
    "nat \<Rightarrow> translator \<Rightarrow> string list \<Rightarrow> inline_fragment \<Rightarrow> exn + (pathspec list \<times> translator)"
  and process_spread ::
    "nat \<Rightarrow> translator \<Rightarrow> string list \<Rightarrow> fragment_spread \<Rightarrow> exn + (pathspec list \<times> translator)"
where
  "process_pathspec 0 self base sels = Inl RecursionError"
| "process_pathspec (Suc depth) self base [] = Inr ([], self)"
| "process_pathspec (Suc depth) self base (sel # sels) =
     (case should_include self (sel_directives sel) of
        Inl e \<Rightarrow> Inl e
      | Inr (included, self1) \<Rightarrow>
          if \<not> included then process_pathspec (Suc depth) self1 base sels
          else (case (case sel of
                        SelField f \<Rightarrow>
                          (case process_field depth self1 base f of
                             Inl e \<Rightarrow> Inl e
                           | Inr (spec, self2) \<Rightarrow> Inr ([spec], self2))
                      | SelInline i \<Rightarrow> process_inline_fragment depth self1 base i
                      | SelSpread s \<Rightarrow> process_spread depth self1 base s) of
                  Inl e \<Rightarrow> Inl e
                | Inr (specs, self2) \<Rightarrow>
                    (case process_pathspec (Suc depth) self2 base sels of
                       Inl e \<Rightarrow> Inl e
                     | Inr (others, self3) \<Rightarrow> Inr (specs @ others, self3))))"
| "process_field depth self base f =
     (case process_path_where self (base @ [field_name f]) (field_arguments f) of
        Inl e \<Rightarrow> Inl e
      | Inr wh \<Rightarrow>
          (case field_selection_set f of
             None \<Rightarrow>
               Inr (SelectPathSpecNode (LinkExprNode (LinkNode (field_name f))) wh None, self)
           | Some sels \<Rightarrow>
               (case process_pathspec depth self (base @ [field_name f]) sels of
                  Inl e \<Rightarrow> Inl e
                | Inr (nested, self') \<Rightarrow>
                    Inr (SelectPathSpecNode (LinkExprNode (LinkNode (field_name f))) wh
                           (Some nested), self'))))"
| "process_inline_fragment depth self base i =
     (case validate_fragment_type self base (inline_on i) (inline_directives i) PNone of
        Inl e \<Rightarrow> Inl e
      | Inr u \<Rightarrow> process_pathspec depth self base (inline_selections i))"
| "process_spread depth self base s =
     (case map_of (self_fragments self) (spread_name s) of
        None \<Rightarrow> Inl KeyError
      | Some frag \<Rightarrow>
          (case validate_fragment_type self base (fragdef_on frag) (fragdef_directives frag)
                  (PStr (fragdef_name frag)) of
             Inl e \<Rightarrow> Inl e
           | Inr u \<Rightarrow> process_pathspec depth self base (fragdef_selections frag)))"
  by pat_completeness auto

text \<open>
  Every call from one of the three selection kinds into a selection set keeps the depth,
  every call from a selection set into a selection kind lowers it, and the loop over a
  selection set shortens the list.
\<close>

termination
  by (relation "measures
        [\<lambda>x. case x of
              Inl (Inl a) \<Rightarrow> fst a | Inl (Inr a) \<Rightarrow> fst a
            | Inr (Inl a) \<Rightarrow> fst a | Inr (Inr a) \<Rightarrow> fst a,
         \<lambda>x. case x of Inl (Inl a) \<Rightarrow> 0 | _ \<Rightarrow> Suc 0,
         \<lambda>x. case x of Inl (Inl a) \<Rightarrow> length (snd (snd (snd a))) | _ \<Rightarrow> 0]")
     auto

subsection \<open>Operations\<close>

text \<open>
  \<^verbatim>\<open>_process_selset\<close> on a top-level selection. The name is read first; only a field has
  a \<^verbatim>\<open>selection_set\<close>, and a field without nested selections has \<^verbatim>\<open>None\<close> there, which
  has no attribute \<^verbatim>\<open>selections\<close>.
\<close>

fun process_selset :: "nat \<Rightarrow> translator \<Rightarrow> selection \<Rightarrow> exn + (target \<times> translator)" where
  "process_selset depth self (SelField f) =
     (case schema_get (self_schema self) (ByName (field_name f)) of
        None \<Rightarrow>
          Inl (GraphQLValidationError
                 [Repr (PStr (field_name f)), Lit '' does not exist in the schema''])
      | Some concept \<Rightarrow>
          (case field_selection_set f of
             None \<Rightarrow> Inl AttributeError
           | Some sels \<Rightarrow>
               (case process_pathspec depth self [field_name f] sels of
                  Inl e \<Rightarrow> Inl e
                | Inr (shape, self') \<Rightarrow>
                    Inr (SelectExprNode
                           (PathNode [PathStepNode (field_name f)] (Some shape)), self'))))"
| "process_selset depth self (SelSpread s) =
     (case schema_get (self_schema self) (ByName (spread_name s)) of
        None \<Rightarrow>
          Inl (GraphQLValidationError
                 [Repr (PStr (spread_name s)), Lit '' does not exist in the schema''])
      | Some concept \<Rightarrow> Inl AttributeError)"
| "process_selset depth self (SelInline i) = Inl AttributeError"

text \<open>
  The select query \<^verbatim>\<open>selquery\<close> the loop of \<^verbatim>\<open>_process_definition\<close> builds for one
  top-level selection. The keyword arguments are evaluated in the order written: the
  target, then the filter.
\<close>

definition select_query ::
  "nat \<Rightarrow> translator \<Rightarrow> pyobj \<Rightarrow> selection \<Rightarrow> exn + (query \<times> translator)" where
  "select_query depth self modname selset =
     (case process_selset depth self selset of
        Inl e \<Rightarrow> Inl e
      | Inr (tgt, self1) \<Rightarrow>
          (case process_select_where self1 selset of
             Inl e \<Rightarrow> Inl e
           | Inr wh \<Rightarrow>
               Inr (SelectQueryNode [NamespaceAliasDeclNode modname] [tgt] wh None None None,
                    self1)))"

text \<open>
  The loop of \<^verbatim>\<open>_process_definition\<close> over the top-level selections; \<open>acc\<close> is the
  local \<^verbatim>\<open>query\<close>.
\<close>

fun process_selections ::
  "nat \<Rightarrow> translator \<Rightarrow> pyobj \<Rightarrow> query option \<Rightarrow> selection list \<Rightarrow>
     exn + (query option \<times> translator)" where
  "process_selections depth self modname acc [] = Inr (acc, self)"
| "process_selections depth self modname acc (selset # selsets) =
     (case select_query depth self modname selset of
        Inl e \<Rightarrow> Inl e
      | Inr (selquery, self1) \<Rightarrow>
          process_selections depth self1 modname
            (case acc of
               None \<Rightarrow> Some selquery
             | Some q \<Rightarrow>
                 Some (SelectQueryNode [] [] None (Some UNION) (Some q) (Some selquery)))
            selsets)"

definition process_definition ::
  "nat \<Rightarrow> translator \<Rightarrow> operation_definition \<Rightarrow> exn + (query option \<times> translator)" where
  "process_definition depth self definition =
     (if op_type definition = None \<or> op_type definition = Some ''query''
      then (case populate_variable_defaults self (op_variables definition) of
              Inl e \<Rightarrow> Inl e
            | Inr self1 \<Rightarrow>
                (case get_module (op_directives definition) of
                   Inl e \<Rightarrow> Inl e
                 | Inr modname \<Rightarrow>
                     process_selections depth self1 modname None (op_selections definition)))
      else Inl (ValueError
                  [Lit ''unsupported definition type: '',
                   Repr (case op_type definition of None \<Rightarrow> PNone | Some t \<Rightarrow> PStr t)]))"

subsection \<open>The whole document\<close>

text \<open>
  The dict comprehensions of \<^verbatim>\<open>translate\<close>: a later entry of the same key replaces the
  earlier one in place.
\<close>

definition fragments_of :: "gql_definition list \<Rightarrow> (string \<times> fragment_definition) list" where
  "fragments_of definitions =
     foldl (\<lambda>table d. case d of
                         DefFragment f \<Rightarrow> AList.update (fragdef_name f) f table
                       | DefOperation opd \<Rightarrow> table)
       [] definitions"

definition initial_vars :: "(string \<times> pyval) list \<Rightarrow> vars" where
  "initial_vars variables =
     foldl (\<lambda>table item. AList.update (fst item) (snd item, False) table) [] variables"

text \<open>
  The critical variables of a finished operation. \<^verbatim>\<open>critvars.sort()\<close> compares the
  pairs, and the names decide: they are the keys of a dict, so no two are equal.
\<close>

definition critical_vars :: "vars \<Rightarrow> (string \<times> pyval) list" where
  "critical_vars vs =
     sort_key fst (map (\<lambda>entry. (fst entry, fst (snd entry)))
                      (filter (\<lambda>entry. snd (snd entry)) vs))"

type_synonym results = "(string option \<times> query option \<times> (string \<times> pyval) list) list"

text \<open>The body of the loop of \<^verbatim>\<open>translate\<close> for one operation definition.\<close>

definition translate_operation ::
  "nat \<Rightarrow> translator \<Rightarrow> (string \<times> pyval) list \<Rightarrow> operation_definition \<Rightarrow>
     exn + ((query option \<times> (string \<times> pyval) list) \<times> translator)" where
  "translate_operation depth self variables definition =
     (case process_definition depth (self\<lparr>self_vars := initial_vars variables\<rparr>) definition of
        Inl e \<Rightarrow> Inl e
      | Inr (query, self') \<Rightarrow> Inr ((query, critical_vars (self_vars self')), self'))"

fun translate_loop ::
  "nat \<Rightarrow> translator \<Rightarrow> (string \<times> pyval) list \<Rightarrow> results \<Rightarrow> gql_definition list \<Rightarrow>
     exn + (results \<times> translator)" where
  "translate_loop depth self variables result [] = Inr (result, self)"
| "translate_loop depth self variables result (DefFragment f # definitions) =
     translate_loop depth self variables result definitions"
| "translate_loop depth self variables result (DefOperation opd # definitions) =
     (case translate_operation depth self variables opd of
        Inl e \<Rightarrow> Inl e
      | Inr (entry, self') \<Rightarrow>
          translate_loop depth self' variables (AList.update (op_name opd) entry result)
            definitions)"

text \<open>
  \<^verbatim>\<open>GraphQLTranslator.translate\<close>, on the list \<^verbatim>\<open>gqltree.definitions\<close>. \<open>self\<close> is the
  object as the previous call left it.
\<close>

definition translate ::
  "nat \<Rightarrow> translator \<Rightarrow> gql_definition list \<Rightarrow> (string \<times> pyval) list \<Rightarrow>
     exn + (results \<times> translator)" where
  "translate depth self definitions variables =
     translate_loop depth (self\<lparr>self_fragments := fragments_of definitions\<rparr>) variables []
       definitions"

section \<open>An example schema\<close>

text \<open>
  The concepts and links of the schema in \<^verbatim>\<open>tests/test_edgeql_utils.py\<close>, in the module
  \<^verbatim>\<open>test\<close>: every concept extends \<^verbatim>\<open>NamedObject\<close>. It is the schema of the examples
  below.
\<close>

definition example_concepts :: "string list" where
  "example_concepts = [''NamedObject'', ''Group'', ''Setting'', ''Profile'', ''User'']"

definition example_pointers :: "((string \<times> string) \<times> type_descriptor) list" where
  "example_pointers =
     [((''NamedObject'', ''name''), TypeDescriptor ''std'' ''str''),
      ((''Group'', ''name''), TypeDescriptor ''std'' ''str''),
      ((''Group'', ''settings''), TypeDescriptor ''test'' ''Setting''),
      ((''Setting'', ''name''), TypeDescriptor ''std'' ''str''),
      ((''Setting'', ''value''), TypeDescriptor ''std'' ''str''),
      ((''Profile'', ''name''), TypeDescriptor ''std'' ''str''),
      ((''Profile'', ''value''), TypeDescriptor ''std'' ''str''),
      ((''User'', ''id''), TypeDescriptor ''std'' ''uuid''),
      ((''User'', ''name''), TypeDescriptor ''std'' ''str''),
      ((''User'', ''active''), TypeDescriptor ''std'' ''bool''),
      ((''User'', ''groups''), TypeDescriptor ''test'' ''Group''),
      ((''User'', ''age''), TypeDescriptor ''std'' ''int''),
      ((''User'', ''score''), TypeDescriptor ''std'' ''float''),
      ((''User'', ''profile''), TypeDescriptor ''test'' ''Profile'')]"

definition example_atoms :: "(string \<times> impl_type) list" where
  "example_atoms =
     [(''str'', Str_t), (''int'', Int_t), (''float'', Float_t), (''bool'', Bool_t),
      (''uuid'', UUID_t)]"

definition example_schema :: schema where
  "example_schema =
     \<lparr> schema_get =
         (\<lambda>key. case key of
                  ByName n \<Rightarrow>
                    if n \<in> set example_concepts then Some (TypeDescriptor ''test'' n) else None
                | ByModuleAndName m n \<Rightarrow>
                    if n \<in> set example_concepts then Some (TypeDescriptor ''test'' n) else None),
       resolve_pointer =
         (\<lambda>t name. case map_of example_pointers (td_name t, name) of
                      None \<Rightarrow> Inl AttributeError
                    | Some tgt \<Rightarrow> Inr tgt),
       issubclass = (\<lambda>a b. a = b \<or> b = TypeDescriptor ''test'' ''NamedObject''),
       get_implementation_type =
         (\<lambda>t. case map_of example_atoms (td_name t) of
                 None \<Rightarrow> Inl AttributeError
               | Some c \<Rightarrow> Inr c),
       impl_issubclass = (=) \<rparr>"

definition example_translator :: translator where
  "example_translator =
     \<lparr> self_schema = example_schema, self_fragments = [], self_vars = [] \<rparr>"

section \<open>Notions of the specification\<close>

text \<open>
  The compatibility table in the specification's words: the schema types that accept a
  text, an integer, a real or a boolean value. \<open>native\<close> holds of the values of these
  four kinds.
\<close>

definition native :: "pyval \<Rightarrow> bool" where
  "native v =
     (case v of
        PStr s \<Rightarrow> True | PInt i \<Rightarrow> True | PFloat r \<Rightarrow> True | PBool b \<Rightarrow> True
      | _ \<Rightarrow> False)"

fun table_accepts :: "pyval \<Rightarrow> impl_type list" where
  "table_accepts (PInt i) = [Int_t, Float_t, Decimal_t, UUID_t]"
| "table_accepts (PStr s) = [Str_t, UUID_t]"
| "table_accepts (PFloat r) = [Float_t, Decimal_t]"
| "table_accepts (PBool b) = [Bool_t]"
| "table_accepts other = []"

text \<open>The message of a value the table rejects.\<close>

definition type_error :: "string \<Rightarrow> pyval \<Rightarrow> impl_type \<Rightarrow> exn" where
  "type_error name v base_t =
     GraphQLValidationError
       [Lit ''value '', Repr v, Lit '' is not of type '', PlainType base_t,
        Lit '' accepted by '', Repr (PStr name)]"

text \<open>
  The comparison an argument stands for: the path of the base steps followed by one link
  step per segment of the argument's name, the operator of its suffix, and the coerced
  value.
\<close>

definition comparison_path :: "step list \<Rightarrow> argument \<Rightarrow> expr" where
  "comparison_path prefix arg =
     PathNode (prefix @ map (\<lambda>part. LinkExprNode (LinkNode part))
                          (split_dunder (snd (split_arg_name (arg_name arg))))) None"

definition comparison :: "step list \<Rightarrow> argument \<Rightarrow> expr \<Rightarrow> expr" where
  "comparison prefix arg val =
     BinOpNode (comparison_path prefix arg) (fst (split_arg_name (arg_name arg))) val"

definition membership :: "ops \<Rightarrow> bool" where
  "membership oper = (oper = IN \<or> oper = NOT_IN)"

text \<open>\<^verbatim>\<open>'__'.join(parts)\<close>: the name whose segments are \<open>parts\<close>.\<close>

fun join_dunder :: "string list \<Rightarrow> string" where
  "join_dunder [] = []"
| "join_dunder [p] = p"
| "join_dunder (p # q # ps) = p @ ''__'' @ join_dunder (q # ps)"

text \<open>
  The current values of the variables: the first component of each entry of
  \<^verbatim>\<open>self._vars\<close>.
\<close>

definition values_of :: "vars \<Rightarrow> string \<Rightarrow> pyval option" where
  "values_of vs n = map_option fst (map_of vs n)"

text \<open>
  Conditional directives in the specification's words. A directive is conditional when it
  is \<^verbatim>\<open>include\<close> or \<^verbatim>\<open>skip\<close>; its condition is its first \<^verbatim>\<open>if\<close> argument, and the
  condition's value is the current value of the variable it names, or the literal's own
  value. The directive excludes when it is \<^verbatim>\<open>include\<close> and its condition evaluates to
  false, or \<^verbatim>\<open>skip\<close> and its condition evaluates to true; it is evaluable when it is not
  conditional or its condition evaluates to a boolean.
\<close>

definition conditional :: "directive \<Rightarrow> bool" where
  "conditional d = (dir_name d = ''include'' \<or> dir_name d = ''skip'')"

definition condition_of :: "directive \<Rightarrow> literal option" where
  "condition_of d =
     (case filter (\<lambda>a. arg_name a = ''if'') (dir_arguments d) of
        [] \<Rightarrow> None
      | a # rest \<Rightarrow> Some (arg_value a))"

fun literal_value :: "(string \<Rightarrow> pyval option) \<Rightarrow> literal \<Rightarrow> pyobj option" where
  "literal_value vals (Variable n) = map_option Val (vals n)"
| "literal_value vals (ScalarLiteral v) = Some (Val v)"
| "literal_value vals (ListLiteral els) = Some (Nodes els)"
| "literal_value vals (ObjectLiteral flds) = Some (ObjectFields flds)"

definition evaluates_to :: "(string \<Rightarrow> pyval option) \<Rightarrow> directive \<Rightarrow> bool \<Rightarrow> bool" where
  "evaluates_to vals d b =
     (Option.bind (Option.bind (condition_of d) (literal_value vals)) as_bool = Some b)"

definition excluding :: "(string \<Rightarrow> pyval option) \<Rightarrow> directive \<Rightarrow> bool" where
  "excluding vals d =
     (dir_name d = ''include'' \<and> evaluates_to vals d False
      \<or> dir_name d = ''skip'' \<and> evaluates_to vals d True)"


definition selected :: "(string \<Rightarrow> pyval option) \<Rightarrow> directive list \<Rightarrow> bool" where
  "selected vals ds = (\<not> list_ex (excluding vals) ds)"

text \<open>
  The variables whose value is read while the conditions of a directive list are
  evaluated: the variable of each conditional directive's condition, in order, up to and
  including the first directive that excludes.
\<close>

definition condition_variable :: "directive \<Rightarrow> string list" where
  "condition_variable d = (case condition_of d of Some (Variable n) \<Rightarrow> [n] | _ \<Rightarrow> [])"

fun directive_reads :: "(string \<Rightarrow> pyval option) \<Rightarrow> directive list \<Rightarrow> string list" where
  "directive_reads vals [] = []"
| "directive_reads vals (d # ds) =
     (if conditional d
      then condition_variable d @ (if excluding vals d then [] else directive_reads vals ds)
      else directive_reads vals ds)"

text \<open>
  Marking a variable critical, and the translator after the variables \<open>names\<close> have been
  marked one after the other: nothing else of it changes.
\<close>

definition mark :: "string \<Rightarrow> vars \<Rightarrow> vars" where
  "mark n vs =
     (case map_of vs n of None \<Rightarrow> vs | Some var \<Rightarrow> AList.update n (fst var, True) vs)"

definition marked :: "string list \<Rightarrow> translator \<Rightarrow> translator" where
  "marked names self = self\<lparr>self_vars := foldl (\<lambda>vs n. mark n vs) (self_vars self) names\<rparr>"





text \<open>
  A declared variable's value after default seeding is null: seeding the declaration into
  the environment succeeds and leaves the variable with the value \<^verbatim>\<open>None\<close>.
\<close>

definition null_after_seeding :: "vars \<Rightarrow> variable_definition \<Rightarrow> bool" where
  "null_after_seeding vs decl =
     (case seed_default vs decl of
        Inl e \<Rightarrow> False
      | Inr vs' \<Rightarrow> values_of vs' (decl_name decl) = Some PNone)"

text \<open>The two messages of an invalid declaration.\<close>

definition default_error :: "variable_definition \<Rightarrow> exn" where
  "default_error decl =
     GraphQLValidationError
       [Lit ''variable '', Repr (PStr (decl_name decl)),
        Lit '' cannot be non-nullable and have a default'']"

definition missing_error :: "variable_definition \<Rightarrow> exn" where
  "missing_error decl =
     GraphQLValidationError
       [Lit ''non-nullable variable '', Repr (PStr (decl_name decl)),
        Lit '' is missing a value'']"

definition is_query :: "operation_definition \<Rightarrow> bool" where
  "is_query opd = (op_type opd = None \<or> op_type opd = Some ''query'')"

text \<open>
  The variables whose value is read in a directive condition while a selection set is
  translated, in the order of the reads. Every selection of the set has its directives
  evaluated (\<open>directive_reads\<close>); when none of them excludes it, the translation goes on
  into the selections below it: the nested selections of a field, the selections of an
  inline fragment, or those of the fragment a spread names. Arguments are not looked at.
  \<open>depth\<close> bounds the nesting as in \<open>process_pathspec\<close>.
\<close>

fun reads_pathspec ::
  "nat \<Rightarrow> (string \<times> fragment_definition) list \<Rightarrow> (string \<Rightarrow> pyval option) \<Rightarrow>
     selection list \<Rightarrow> string list" where
  "reads_pathspec 0 frags vals sels = []"
| "reads_pathspec (Suc depth) frags vals [] = []"
| "reads_pathspec (Suc depth) frags vals (sel # sels) =
     directive_reads vals (sel_directives sel) @
     (if selected vals (sel_directives sel)
      then (case sel of
              SelField f \<Rightarrow>
                (case field_selection_set f of
                   None \<Rightarrow> []
                 | Some nested \<Rightarrow> reads_pathspec depth frags vals nested)
            | SelInline i \<Rightarrow> reads_pathspec depth frags vals (inline_selections i)
            | SelSpread s \<Rightarrow>
                (case map_of frags (spread_name s) of
                   None \<Rightarrow> []
                 | Some frag \<Rightarrow> reads_pathspec depth frags vals (fragdef_selections frag)))
      else []) @
     reads_pathspec (Suc depth) frags vals sels"

text \<open>
  The same for an operation: the reads below each of its top-level selections, whose own
  directives are not evaluated.
\<close>

definition reads_top ::
  "nat \<Rightarrow> (string \<times> fragment_definition) list \<Rightarrow> (string \<Rightarrow> pyval option) \<Rightarrow>
     selection \<Rightarrow> string list" where
  "reads_top depth frags vals sel =
     (case sel of
        SelField f \<Rightarrow>
          (case field_selection_set f of
             None \<Rightarrow> []
           | Some nested \<Rightarrow> reads_pathspec depth frags vals nested)
      | _ \<Rightarrow> [])"

definition reads_operation ::
  "nat \<Rightarrow> (string \<times> fragment_definition) list \<Rightarrow> (string \<Rightarrow> pyval option) \<Rightarrow>
     operation_definition \<Rightarrow> string list" where
  "reads_operation depth frags vals opd =
     concat (map (reads_top depth frags vals) (op_selections opd))"

text \<open>
  \<open>marks self self' names\<close>: the translator \<open>self'\<close> is \<open>self\<close> with the variables
  \<open>names\<close> marked critical, all of them variables of the environment.
\<close>

definition marks :: "translator \<Rightarrow> translator \<Rightarrow> string list \<Rightarrow> bool" where
  "marks self self' names =
     (self' = marked names self \<and> set names \<subseteq> fst ` set (self_vars self))"

text \<open>
  A variable environment as \<^verbatim>\<open>translate\<close> sets it up for an operation: no name twice, and
  no variable marked critical.
\<close>

definition clean :: "vars \<Rightarrow> bool" where
  "clean vs = (distinct (map fst vs) \<and> (\<forall>e\<in>set vs. \<not> snd (snd e)))"

text \<open>
  The query
  \<^verbatim>\<open>query($yes: Boolean) { User(age: $age) { name @skip(if: $no)  score @include(if: $yes)  age } }\<close>.
\<close>

definition critical_example :: operation_definition where
  "critical_example =
     OperationDefinition None None
       [VariableDefinition ''$yes'' (VariableType (TypeName ''Boolean'') True False) None]
       []
       [SelField (Field ''User'' [Argument ''age'' (Variable ''$age'')] []
          (Some [SelField (Field ''name'' []
                   [Directive ''skip'' [Argument ''if'' (Variable ''$no'')]] None),
                 SelField (Field ''score'' []
                   [Directive ''include'' [Argument ''if'' (Variable ''$yes'')]] None),
                 SelField (Field ''age'' [] [] None)]))]"

section \<open>Value validation against the table\<close>

lemma coercion_native: "native v \<Longrightarrow> PY_COERCION_MAP v = Some (table_accepts v)"
  by (cases v) (simp_all add: native_def)

text \<open>
  C4 (amended). A value of one of the four native kinds, checked on its own or as an element of
  a list, is accepted exactly when the expected class is a subclass of a class the table
  lists for its kind, and otherwise raises the validation error whose message holds the
  value, the expected class and the name. Where a list is required, such a value on its own
  is rejected with a message that holds the name only.
\<close>

theorem validate_value_by_table:
  assumes "native v"
  shows "validate_value issub name v base_t False =
           (if list_ex (issub base_t) (table_accepts v) then Inr ()
            else Inl (type_error name v base_t))
       \<and> validate_value issub name (PList (v # vs)) base_t True =
           (if list_ex (issub base_t) (table_accepts v)
            then validate_value issub name (PList vs) base_t True
            else Inl (type_error name v base_t))
       \<and> validate_value issub name (PList []) base_t True = Inr ()
       \<and> validate_value issub name v base_t True =
           Inl (GraphQLValidationError
                  [Lit ''argument '', Repr (PStr name), Lit '' should be a List''])"
proof -
  have m: "PY_COERCION_MAP v = Some (table_accepts v)"
    using assms by (rule coercion_native)
  have 1: "validate_value issub name v base_t False =
           (if list_ex (issub base_t) (table_accepts v) then Inr ()
            else Inl (type_error name v base_t))"
    by (simp add: validate_value_def m type_error_def)
  have 2: "validate_value issub name (PList (v # vs)) base_t True =
           (if list_ex (issub base_t) (table_accepts v)
            then validate_value issub name (PList vs) base_t True
            else Inl (type_error name v base_t))"
    by (simp add: validate_value_def m type_error_def)
  have 3: "validate_value issub name (PList []) base_t True = Inr ()"
    by (simp add: validate_value_def)
  have 4: "validate_value issub name v base_t True =
           Inl (GraphQLValidationError
                  [Lit ''argument '', Repr (PStr name), Lit '' should be a List''])"
    using assms by (cases v) (simp_all add: validate_value_def native_def)
  from 1 2 3 4 show ?thesis by blast
qed

text \<open>
  An integer for \<^verbatim>\<open>age\<close> is accepted by the floating-point class and rejected by the
  boolean class, with the value, the class and the name in the message.
\<close>

theorem validate_value_by_table_witness:
  "native (PInt 5)
   \<and> validate_value (=) ''age'' (PInt 5) Float_t False = Inr ()
   \<and> validate_value (=) ''age'' (PInt 5) Bool_t False =
       Inl (GraphQLValidationError
              [Lit ''value '', Repr (PInt 5), Lit '' is not of type '', PlainType Bool_t,
               Lit '' accepted by '', Repr (PStr ''age'')])"
proof -
  have n: "native (PInt 5)" by (simp add: native_def)
  show ?thesis
    using n validate_value_by_table [OF n, of "(=)" "''age''" Float_t "[]"]
      validate_value_by_table [OF n, of "(=)" "''age''" Bool_t "[]"]
    by (simp add: type_error_def)
qed

text \<open>
  C4 as stated fails: where a list is required, the integer 5 is rejected although the
  table accepts an integer for the integer class, and the message holds neither the
  value nor the class.
\<close>

theorem list_expected_message_counterexample:
  "validate_value (=) ''age'' (PInt 5) Int_t True =
     Inl (GraphQLValidationError
            [Lit ''argument '', Repr (PStr ''age''), Lit '' should be a List''])"
  by (simp add: validate_value_def)

section \<open>Arguments and filters\<close>

lemma split_arg_name_suffixes:
  "split_arg_name (n @ ''__eq'') = (EQ, n)"
  "split_arg_name (n @ ''__ne'') = (NE, n)"
  "split_arg_name (n @ ''__in'') = (IN, n)"
  "split_arg_name (n @ ''__ni'') = (NOT_IN, n)"
  by (simp_all add: split_arg_name_def GQL_OPS_MAP_def)

lemma split_arg_name_plain:
  "drop (length n - 4) n \<notin> set [''__eq'', ''__ne'', ''__in'', ''__ni''] \<Longrightarrow>
   split_arg_name n = (EQ, n)"
  by (simp add: split_arg_name_def GQL_OPS_MAP_def)

lemma split_dunder_plain: "CHR ''_'' \<notin> set a \<Longrightarrow> split_dunder a = [a]"
  by (induction a rule: split_dunder.induct) auto

lemma split_dunder_segment:
  "CHR ''_'' \<notin> set a \<Longrightarrow> split_dunder (a @ CHR ''_'' # CHR ''_'' # b) = a # split_dunder b"
  by (induction a rule: split_dunder.induct) auto

lemma split_join_dunder:
  "parts \<noteq> [] \<Longrightarrow> \<forall>p\<in>set parts. CHR ''_'' \<notin> set p \<Longrightarrow>
   split_dunder (join_dunder parts) = parts"
  by (induction parts rule: join_dunder.induct)
     (simp_all add: split_dunder_plain split_dunder_segment)

lemma join_expressions_foldl:
  "join_expressions (c # cs) oper = Inr (foldl (\<lambda>l r. BinOpNode l oper r) c cs)"
  by (cases cs) simp_all

lemma validate_arg_as_list:
  "validate_arg self steps cv True = Inr () \<Longrightarrow> cv = PNone \<or> (\<exists>vs. cv = PList vs)"
  by (cases cv)
     (auto simp: validate_arg_def validate_value_def
           split: list.splits step.splits option.splits sum.splits if_splits)

lemma process_arguments_shape:
  "process_arguments self prefix args = Inr triples \<Longrightarrow>
   \<exists>vals. process_literal_list (map arg_value args) = Inr vals
     \<and> triples = map2 (\<lambda>a v. (comparison_path prefix a, fst (split_arg_name (arg_name a)), v))
                   args vals
     \<and> list_all2
         (\<lambda>a v. \<exists>cv. decode_check_value self a v = Inr cv
                  \<and> validate_arg self (path_steps (comparison_path prefix a)) cv
                       (membership (fst (split_arg_name (arg_name a)))) = Inr ())
         args vals"
proof (induction args arbitrary: triples)
  case Nil
  then show ?case by simp
next
  case (Cons a args)
  from Cons.prems obtain v cv rest where
    lit: "process_literal (arg_value a) = Inr v"
    and dec: "decode_check_value self a v = Inr cv"
    and val: "validate_arg self (path_steps (comparison_path prefix a)) cv
                (membership (fst (split_arg_name (arg_name a)))) = Inr ()"
    and rest: "process_arguments self prefix args = Inr rest"
    and tr: "triples = (comparison_path prefix a, fst (split_arg_name (arg_name a)), v) # rest"
    by (auto simp: Let_def comparison_path_def membership_def split: sum.splits)
  from Cons.IH [OF rest] obtain vals where
    vals: "process_literal_list (map arg_value args) = Inr vals"
    and shape: "rest = map2 (\<lambda>a v. (comparison_path prefix a,
                                     fst (split_arg_name (arg_name a)), v)) args vals"
    and checked: "list_all2
         (\<lambda>a v. \<exists>cv. decode_check_value self a v = Inr cv
                  \<and> validate_arg self (path_steps (comparison_path prefix a)) cv
                       (membership (fst (split_arg_name (arg_name a)))) = Inr ())
         args vals"
    by blast
  show ?case
    apply (rule exI [of _ "v # vals"])
    using lit dec val vals shape checked tr by auto
qed


lemma validate_arg_not_as_list:
  "validate_arg self steps cv False = Inr () \<Longrightarrow> cv = PNone \<or> native cv"
  by (cases cv)
     (auto simp: validate_arg_def validate_value_def native_def
           split: list.splits step.splits option.splits sum.splits if_splits)

lemma validate_arg_shape:
  "validate_arg self steps cv m = Inr () \<Longrightarrow>
   (if m then cv = PNone \<or> (\<exists>vs. cv = PList vs) else cv = PNone \<or> native cv)"
  by (cases m) (auto dest: validate_arg_as_list validate_arg_not_as_list)

text \<open>
  C6. When the arguments of a selection are processed, the filter is the left-nested
  \<^verbatim>\<open>AND\<close> of one comparison per argument, in argument order. The comparison of an
  argument has the path of the base steps followed by one link step per segment of the
  name (\<open>comparison_path\<close>), and the operator of the name's suffix. The decoded value of
  each argument has been validated, as a list exactly when the operator is a membership
  operator: then it is a list (or null), and otherwise a text, integer, real or boolean
  value (or null). The suffixes \<^verbatim>\<open>__eq\<close>, \<^verbatim>\<open>__ne\<close>, \<^verbatim>\<open>__in\<close> and \<^verbatim>\<open>__ni\<close> give
  their operators and are cut off the name; any other name is compared for equality as a
  whole; and the segments of a name are the parts between double underscores.
\<close>

theorem arguments_to_filter:
  assumes "where_of_arguments self prefix args = Inr w"
  shows "\<exists>vals c cs.
           process_literal_list (map arg_value args) = Inr vals
         \<and> map2 (comparison prefix) args vals = c # cs
         \<and> w = Some (foldl (\<lambda>l r. BinOpNode l AND r) c cs)
         \<and> list_all2
             (\<lambda>a v. \<exists>cv. decode_check_value self a v = Inr cv
                      \<and> validate_arg self (path_steps (comparison_path prefix a)) cv
                           (membership (fst (split_arg_name (arg_name a)))) = Inr ()
                      \<and> (if membership (fst (split_arg_name (arg_name a)))
                          then cv = PNone \<or> (\<exists>vs. cv = PList vs)
                          else cv = PNone \<or> native cv))
             args vals
         \<and> (\<forall>n. split_arg_name (n @ ''__eq'') = (EQ, n)
                \<and> split_arg_name (n @ ''__ne'') = (NE, n)
                \<and> split_arg_name (n @ ''__in'') = (IN, n)
                \<and> split_arg_name (n @ ''__ni'') = (NOT_IN, n)
                \<and> (drop (length n - 4) n \<notin> set [''__eq'', ''__ne'', ''__in'', ''__ni'']
                     \<longrightarrow> split_arg_name n = (EQ, n)))
         \<and> (\<forall>parts. parts \<noteq> [] \<and> (\<forall>p\<in>set parts. CHR ''_'' \<notin> set p)
                \<longrightarrow> split_dunder (join_dunder parts) = parts)"
proof -
  from assms obtain triples joined where
    tr: "process_arguments self prefix args = Inr triples"
    and jn: "join_expressions
               (map (\<lambda>t. BinOpNode (fst t) (fst (snd t)) (snd (snd t))) triples) AND =
             Inr joined"
    and w: "w = Some joined"
    by (auto simp: where_of_arguments_def split: sum.splits)
  from process_arguments_shape [OF tr] obtain vals where
    vals: "process_literal_list (map arg_value args) = Inr vals"
    and shape: "triples = map2 (\<lambda>a v. (comparison_path prefix a,
                                        fst (split_arg_name (arg_name a)), v)) args vals"
    and checked: "list_all2
         (\<lambda>a v. \<exists>cv. decode_check_value self a v = Inr cv
                  \<and> validate_arg self (path_steps (comparison_path prefix a)) cv
                       (membership (fst (split_arg_name (arg_name a)))) = Inr ())
         args vals"
    by blast
  have cmp: "map (\<lambda>t. BinOpNode (fst t) (fst (snd t)) (snd (snd t))) triples =
             map2 (comparison prefix) args vals"
    unfolding shape by (simp add: comparison_def map_zip_map2 split_def)
  from jn obtain c cs where ccs: "map2 (comparison prefix) args vals = c # cs"
    unfolding cmp by (cases "map2 (comparison prefix) args vals") auto
  have joined: "joined = foldl (\<lambda>l r. BinOpNode l AND r) c cs"
    using jn unfolding cmp ccs by (simp add: join_expressions_foldl)
  have checked': "list_all2
             (\<lambda>a v. \<exists>cv. decode_check_value self a v = Inr cv
                      \<and> validate_arg self (path_steps (comparison_path prefix a)) cv
                           (membership (fst (split_arg_name (arg_name a)))) = Inr ()
                      \<and> (if membership (fst (split_arg_name (arg_name a)))
                          then cv = PNone \<or> (\<exists>vs. cv = PList vs)
                          else cv = PNone \<or> native cv))
             args vals"
    using checked
  proof (rule list_all2_mono)
    fix a v
    assume "\<exists>cv. decode_check_value self a v = Inr cv
                  \<and> validate_arg self (path_steps (comparison_path prefix a)) cv
                       (membership (fst (split_arg_name (arg_name a)))) = Inr ()"
    then obtain cv where d: "decode_check_value self a v = Inr cv"
      and va: "validate_arg self (path_steps (comparison_path prefix a)) cv
                       (membership (fst (split_arg_name (arg_name a)))) = Inr ()"
      by blast
    from d va validate_arg_shape [OF va]
    show "\<exists>cv. decode_check_value self a v = Inr cv
                      \<and> validate_arg self (path_steps (comparison_path prefix a)) cv
                           (membership (fst (split_arg_name (arg_name a)))) = Inr ()
                      \<and> (if membership (fst (split_arg_name (arg_name a)))
                          then cv = PNone \<or> (\<exists>vs. cv = PList vs)
                          else cv = PNone \<or> native cv)"
      by (intro exI [of _ cv] conjI)
  qed
  have names: "\<forall>n. split_arg_name (n @ ''__eq'') = (EQ, n)
                \<and> split_arg_name (n @ ''__ne'') = (NE, n)
                \<and> split_arg_name (n @ ''__in'') = (IN, n)
                \<and> split_arg_name (n @ ''__ni'') = (NOT_IN, n)
                \<and> (drop (length n - 4) n \<notin> set [''__eq'', ''__ne'', ''__in'', ''__ni'']
                     \<longrightarrow> split_arg_name n = (EQ, n))"
    using split_arg_name_suffixes split_arg_name_plain by blast
  have segs: "\<forall>parts. parts \<noteq> [] \<and> (\<forall>p\<in>set parts. CHR ''_'' \<notin> set p)
                \<longrightarrow> split_dunder (join_dunder parts) = parts"
    using split_join_dunder by blast
  have w': "w = Some (foldl (\<lambda>l r. BinOpNode l AND r) c cs)"
    using w joined by simp
  from vals ccs w' checked' names segs show ?thesis
    by (intro exI [of _ vals] exI [of _ c] exI [of _ cs] conjI)
qed

text \<open>
  Two arguments of \<^verbatim>\<open>User\<close>: a membership test on \<^verbatim>\<open>score\<close> with a list of two
  integers, and an equality on \<^verbatim>\<open>name\<close>.
\<close>

theorem arguments_to_filter_witness:
  "where_of_arguments example_translator [PathStepNode ''User'']
     [Argument ''score__in'' (ListLiteral [ScalarLiteral (PInt 1), ScalarLiteral (PInt 2)]),
      Argument ''name'' (ScalarLiteral (PStr ''x''))] =
   Inr (Some
     (BinOpNode
        (BinOpNode
           (PathNode [PathStepNode ''User'', LinkExprNode (LinkNode ''score'')] None)
           IN (SequenceNode [ConstantNode (PInt 1) None, ConstantNode (PInt 2) None]))
        AND
        (BinOpNode
           (PathNode [PathStepNode ''User'', LinkExprNode (LinkNode ''name'')] None)
           EQ (ConstantNode (PStr ''x'') None))))
   \<and> (\<exists>vals c cs.
         process_literal_list
           (map arg_value
              [Argument ''score__in''
                 (ListLiteral [ScalarLiteral (PInt 1), ScalarLiteral (PInt 2)]),
               Argument ''name'' (ScalarLiteral (PStr ''x''))]) = Inr vals
       \<and> map2 (comparison [PathStepNode ''User''])
           [Argument ''score__in''
              (ListLiteral [ScalarLiteral (PInt 1), ScalarLiteral (PInt 2)]),
            Argument ''name'' (ScalarLiteral (PStr ''x''))] vals = c # cs)"
proof -
  have h: "where_of_arguments example_translator [PathStepNode ''User'']
     [Argument ''score__in'' (ListLiteral [ScalarLiteral (PInt 1), ScalarLiteral (PInt 2)]),
      Argument ''name'' (ScalarLiteral (PStr ''x''))] =
   Inr (Some
     (BinOpNode
        (BinOpNode
           (PathNode [PathStepNode ''User'', LinkExprNode (LinkNode ''score'')] None)
           IN (SequenceNode [ConstantNode (PInt 1) None, ConstantNode (PInt 2) None]))
        AND
        (BinOpNode
           (PathNode [PathStepNode ''User'', LinkExprNode (LinkNode ''name'')] None)
           EQ (ConstantNode (PStr ''x'') None))))"
    by (simp add: where_of_arguments_def example_translator_def example_schema_def
        example_concepts_def example_pointers_def example_atoms_def validate_arg_def
        validate_value_def decode_check_value_def split_arg_name_def GQL_OPS_MAP_def Let_def)
  from arguments_to_filter [OF h] obtain vals c cs where
    "process_literal_list
           (map arg_value
              [Argument ''score__in''
                 (ListLiteral [ScalarLiteral (PInt 1), ScalarLiteral (PInt 2)]),
               Argument ''name'' (ScalarLiteral (PStr ''x''))]) = Inr vals"
    and "map2 (comparison [PathStepNode ''User''])
           [Argument ''score__in''
              (ListLiteral [ScalarLiteral (PInt 1), ScalarLiteral (PInt 2)]),
            Argument ''name'' (ScalarLiteral (PStr ''x''))] vals = c # cs"
    by (elim exE conjE)
  with h show ?thesis by (intro conjI exI)
qed

lemma validate_arg_null: "validate_arg self steps PNone as_sequence = Inr ()"
  by (simp add: validate_arg_def)

text \<open>
  C10. An argument whose decoded value is null (a null literal, or a variable bound to
  null) passes \<^verbatim>\<open>_validate_arg\<close> without any look at the schema, so no error is raised
  for it, and its comparison is emitted like any other: the result for the arguments is
  the comparison of this one followed by the result for the others, and on its own the
  argument gives the filter that is its comparison.
\<close>

theorem null_argument_not_validated:
  assumes "arg_value arg = ScalarLiteral PNone
         \<or> (\<exists>n c. arg_value arg = Variable n \<and> map_of (self_vars self) n = Some (PNone, c))"
  shows "\<exists>val. process_literal (arg_value arg) = Inr val
           \<and> decode_check_value self arg val = Inr PNone
           \<and> process_arguments self prefix (arg # args) =
               (case process_arguments self prefix args of
                  Inl e \<Rightarrow> Inl e
                | Inr result \<Rightarrow>
                    Inr ((comparison_path prefix arg, fst (split_arg_name (arg_name arg)), val)
                         # result))
           \<and> where_of_arguments self prefix [arg] = Inr (Some (comparison prefix arg val))"
proof -
  obtain val where lit: "process_literal (arg_value arg) = Inr val"
    and dec: "decode_check_value self arg val = Inr PNone"
    using assms by (auto simp: decode_check_value_def)
  have args: "process_arguments self prefix (arg # args) =
               (case process_arguments self prefix args of
                  Inl e \<Rightarrow> Inl e
                | Inr result \<Rightarrow>
                    Inr ((comparison_path prefix arg, fst (split_arg_name (arg_name arg)), val)
                         # result))"
    by (simp add: lit dec validate_arg_null comparison_path_def Let_def split: sum.splits)
  have one: "process_arguments self prefix [arg] =
               Inr [(comparison_path prefix arg, fst (split_arg_name (arg_name arg)), val)]"
    by (simp add: lit dec validate_arg_null comparison_path_def Let_def)
  have "where_of_arguments self prefix [arg] = Inr (Some (comparison prefix arg val))"
    by (simp add: where_of_arguments_def one comparison_def del: process_arguments.simps)
  with lit dec args show ?thesis by (intro exI [of _ val] conjI)
qed

text \<open>
  A null literal for the membership test \<^verbatim>\<open>age__in\<close>, which would otherwise have to be
  a list of integers.
\<close>

theorem null_argument_not_validated_witness:
  "arg_value (Argument ''age__in'' (ScalarLiteral PNone)) = ScalarLiteral PNone
   \<and> where_of_arguments example_translator [PathStepNode ''User'']
        [Argument ''age__in'' (ScalarLiteral PNone)] =
       Inr (Some (BinOpNode
                    (PathNode [PathStepNode ''User'', LinkExprNode (LinkNode ''age'')] None)
                    IN (ConstantNode PNone None)))"
  using null_argument_not_validated
          [of "Argument ''age__in'' (ScalarLiteral PNone)" example_translator
              "[PathStepNode ''User'']" "[]"]
  by (simp add: comparison_def comparison_path_def split_arg_name_def GQL_OPS_MAP_def)

section \<open>Top-level selections\<close>

lemma process_selections_snoc:
  "process_selections depth self modname acc (sels @ [s]) =
     (case process_selections depth self modname acc sels of
        Inl e \<Rightarrow> Inl e
      | Inr (acc', self1) \<Rightarrow>
          (case select_query depth self1 modname s of
             Inl e \<Rightarrow> Inl e
           | Inr (q, self2) \<Rightarrow>
               Inr (Some (case acc' of
                            None \<Rightarrow> q
                          | Some l \<Rightarrow> SelectQueryNode [] [] None (Some UNION) (Some l) (Some q)),
                    self2)))"
  by (induction sels arbitrary: self acc) (auto split: sum.splits option.splits)

text \<open>
  C7. For top-level selections \<open>a\<close> then \<open>b\<close>, the loop of \<^verbatim>\<open>_process_definition\<close>
  returns the union node whose left operand is the select query of \<open>a\<close> and whose right
  operand is that of \<open>b\<close>. In general the select query of the last selection is the
  right operand of the outermost union, and the tree of the selections before it is the
  left operand: the union is nested to the left, in the order of the selections.
\<close>

theorem union_keeps_selection_order:
  "process_selections depth self modname None [a, b] =
     (case select_query depth self modname a of
        Inl e \<Rightarrow> Inl e
      | Inr (qa, self1) \<Rightarrow>
          (case select_query depth self1 modname b of
             Inl e \<Rightarrow> Inl e
           | Inr (qb, self2) \<Rightarrow>
               Inr (Some (SelectQueryNode [] [] None (Some UNION) (Some qa) (Some qb)), self2)))
   \<and> process_selections depth self modname acc (sels @ [s]) =
     (case process_selections depth self modname acc sels of
        Inl e \<Rightarrow> Inl e
      | Inr (acc', self1) \<Rightarrow>
          (case select_query depth self1 modname s of
             Inl e \<Rightarrow> Inl e
           | Inr (q, self2) \<Rightarrow>
               Inr (Some (case acc' of
                            None \<Rightarrow> q
                          | Some l \<Rightarrow> SelectQueryNode [] [] None (Some UNION) (Some l) (Some q)),
                    self2)))
   \<and> (if is_query opd
      then process_definition depth self opd =
             (case populate_variable_defaults self (op_variables opd) of
                Inl e \<Rightarrow> Inl e
              | Inr self1 \<Rightarrow>
                  (case get_module (op_directives opd) of
                     Inl e \<Rightarrow> Inl e
                   | Inr modname \<Rightarrow>
                       process_selections depth self1 modname None (op_selections opd)))
      else \<exists>msg. process_definition depth self opd = Inl (ValueError msg))"
proof -
  have opd: "if is_query opd
      then process_definition depth self opd =
             (case populate_variable_defaults self (op_variables opd) of
                Inl e \<Rightarrow> Inl e
              | Inr self1 \<Rightarrow>
                  (case get_module (op_directives opd) of
                     Inl e \<Rightarrow> Inl e
                   | Inr modname \<Rightarrow>
                       process_selections depth self1 modname None (op_selections opd)))
      else \<exists>msg. process_definition depth self opd = Inl (ValueError msg)"
    by (auto simp: process_definition_def is_query_def)
  have "process_selections depth self modname None [a, b] =
     (case select_query depth self modname a of
        Inl e \<Rightarrow> Inl e
      | Inr (qa, self1) \<Rightarrow>
          (case select_query depth self1 modname b of
             Inl e \<Rightarrow> Inl e
           | Inr (qb, self2) \<Rightarrow>
               Inr (Some (SelectQueryNode [] [] None (Some UNION) (Some qa) (Some qb)), self2)))"
    by (simp split: sum.splits prod.splits)
  then show ?thesis using process_selections_snoc opd by (intro conjI)
qed

text \<open>
  The query \<^verbatim>\<open>{ User { name }  Group { name } }\<close>: the left operand of the union is the
  select query of \<^verbatim>\<open>User\<close>, the right operand that of \<^verbatim>\<open>Group\<close>.
\<close>

theorem union_keeps_selection_order_witness:
  "process_selections 3 example_translator (Val PNone) None
     [SelField (Field ''User'' [] [] (Some [SelField (Field ''name'' [] [] None)])),
      SelField (Field ''Group'' [] [] (Some [SelField (Field ''name'' [] [] None)]))] =
   Inr (Some
          (SelectQueryNode [] [] None (Some UNION)
             (Some (SelectQueryNode [NamespaceAliasDeclNode (Val PNone)]
                      [SelectExprNode
                         (PathNode [PathStepNode ''User'']
                            (Some [SelectPathSpecNode (LinkExprNode (LinkNode ''name''))
                                     None None]))]
                      None None None None))
             (Some (SelectQueryNode [NamespaceAliasDeclNode (Val PNone)]
                      [SelectExprNode
                         (PathNode [PathStepNode ''Group'']
                            (Some [SelectPathSpecNode (LinkExprNode (LinkNode ''name''))
                                     None None]))]
                      None None None None))),
        example_translator)"
proof -
  let ?name = "[SelField (Field ''name'' [] [] None)]"
  let ?shape = "Some [SelectPathSpecNode (LinkExprNode (LinkNode ''name'')) None None]"
  let ?user = "SelField (Field ''User'' [] [] (Some ?name))"
  let ?group = "SelField (Field ''Group'' [] [] (Some ?name))"
  have three: "(3::nat) = Suc (Suc (Suc 0))" by simp
  have sch: "self_schema example_translator = example_schema"
    by (simp add: example_translator_def)
  have gu: "schema_get example_schema (ByName ''User'') = Some (TypeDescriptor ''test'' ''User'')"
    by (simp add: example_schema_def example_concepts_def)
  have gg: "schema_get example_schema (ByName ''Group'') = Some (TypeDescriptor ''test'' ''Group'')"
    by (simp add: example_schema_def example_concepts_def)
  have a: "select_query 3 example_translator (Val PNone) ?user =
             Inr (SelectQueryNode [NamespaceAliasDeclNode (Val PNone)]
                    [SelectExprNode (PathNode [PathStepNode ''User''] ?shape)]
                    None None None None, example_translator)"
    unfolding three by (simp add: select_query_def sch gu process_path_where_def)
  have b: "select_query 3 example_translator (Val PNone) ?group =
             Inr (SelectQueryNode [NamespaceAliasDeclNode (Val PNone)]
                    [SelectExprNode (PathNode [PathStepNode ''Group''] ?shape)]
                    None None None None, example_translator)"
    unfolding three by (simp add: select_query_def sch gg process_path_where_def)
  show ?thesis
    unfolding union_keeps_selection_order [THEN conjunct1] a
    by (simp add: b)
qed

section \<open>Calls of translate\<close>




section \<open>Top-level selections without nested selections\<close>

text \<open>
  C8 (the code's behaviour at the failing input). A query with the two top-level
  selections \<^verbatim>\<open>User\<close> and \<^verbatim>\<open>Group\<close>, neither with arguments nor nested selections:
  \<^verbatim>\<open>_process_selset\<close> reads \<^verbatim>\<open>selset.selection_set.selections\<close>, the selection set is
  \<^verbatim>\<open>None\<close>, and the call ends in \<^verbatim>\<open>AttributeError\<close>.
\<close>

theorem no_nested_selections_attribute_error:
  "translate 10 example_translator
     [DefOperation (OperationDefinition None None [] []
        [SelField (Field ''User'' [] [] None), SelField (Field ''Group'' [] [] None)])] [] =
   Inl AttributeError"
  by (simp add: translate_def translate_operation_def process_definition_def
      populate_variable_defaults_def get_module_def select_query_def example_translator_def
      example_schema_def example_concepts_def fragments_of_def initial_vars_def)

section \<open>Conditional directives\<close>

lemma map_of_Some_key: "map_of vs n = Some x \<Longrightarrow> n \<in> fst ` set vs"
  by (metis domI dom_map_of_conv_image_fst)

lemma values_of_mark [simp]: "values_of (mark n vs) = values_of vs"
  by (rule ext) (simp add: values_of_def mark_def update_conv' split: option.splits)

lemma keys_mark [simp]: "map fst (mark n vs) = map fst vs"
  by (auto simp: mark_def update_keys split: option.splits dest: map_of_Some_key)

lemma marked_Nil [simp]: "marked [] self = self"
  by (simp add: marked_def)

lemma marked_append: "marked (xs @ ys) self = marked ys (marked xs self)"
  by (simp add: marked_def)

lemma values_of_foldl_mark [simp]:
  "values_of (foldl (\<lambda>vs n. mark n vs) vs names) = values_of vs"
  by (induction names arbitrary: vs) simp_all

lemma keys_foldl_mark [simp]:
  "map fst (foldl (\<lambda>vs n. mark n vs) vs names) = map fst vs"
  by (induction names arbitrary: vs) simp_all

lemma marked_frame [simp]:
  "self_schema (marked names self) = self_schema self"
  "self_fragments (marked names self) = self_fragments self"
  "values_of (self_vars (marked names self)) = values_of (self_vars self)"
  "map fst (self_vars (marked names self)) = map fst (self_vars self)"
  by (simp_all add: marked_def)

lemma marked_keys [simp]:
  "fst ` set (self_vars (marked names self)) = fst ` set (self_vars self)"
  by (metis marked_frame(4) set_map)

lemma read_condition_marks:
  assumes "read_condition self lit = Inr (cond, self')"
  shows "literal_value (values_of (self_vars self)) lit = Some cond
       \<and> self' = marked (case lit of Variable n \<Rightarrow> [n] | _ \<Rightarrow> []) self
       \<and> set (case lit of Variable n \<Rightarrow> [n] | _ \<Rightarrow> []) \<subseteq> fst ` set (self_vars self)"
  using assms
  by (cases lit)
     (auto simp: values_of_def marked_def mark_def
           split: option.splits dest: map_of_Some_key)

lemma should_include_marks:
  "should_include self ds = Inr (b, self') \<Longrightarrow>
     self' = marked (directive_reads (values_of (self_vars self)) ds) self
   \<and> b = selected (values_of (self_vars self)) ds
   \<and> set (directive_reads (values_of (self_vars self)) ds) \<subseteq> fst ` set (self_vars self)"
proof (induction ds arbitrary: self)
  case Nil
  then show ?case by (simp add: selected_def)
next
  case (Cons d ds)
  show ?case
  proof (cases "conditional d")
    case False
    with Cons.prems have "should_include self ds = Inr (b, self')"
      by (simp add: conditional_def)
    from Cons.IH [OF this] False show ?thesis
      by (simp add: selected_def excluding_def conditional_def)
  next
    case True
    with Cons.prems obtain a rest cond self1 bv where
      flt: "filter (\<lambda>a. arg_name a = ''if'') (dir_arguments d) = a # rest"
      and rc: "read_condition self (arg_value a) = Inr (cond, self1)"
      and ab: "as_bool cond = Some bv"
      by (auto simp: conditional_def split: list.splits sum.splits option.splits)
    have cof: "condition_of d = Some (arg_value a)"
      by (simp add: condition_of_def flt)
    from read_condition_marks [OF rc]
    have lv: "literal_value (values_of (self_vars self)) (arg_value a) = Some cond"
      and s1: "self1 = marked (condition_variable d) self"
      and sub: "set (condition_variable d) \<subseteq> fst ` set (self_vars self)"
      by (simp_all add: condition_variable_def cof)
    have ev: "evaluates_to (values_of (self_vars self)) d x = (x = bv)" for x
      by (auto simp: evaluates_to_def cof lv ab)
    show ?thesis
    proof (cases "excluding (values_of (self_vars self)) d")
      case ex: True
      with Cons.prems True have "b = False" "self' = self1"
        by (auto simp: flt rc ab excluding_def ev conditional_def)
      with ex True s1 sub show ?thesis
        by (simp add: selected_def)
    next
      case nex: False
      with Cons.prems True have rec: "should_include self1 ds = Inr (b, self')"
        by (auto simp: flt rc ab excluding_def ev conditional_def split: if_splits)
      from Cons.IH [OF rec] nex True s1 sub show ?thesis
        by (simp add: selected_def marked_append image_subset_iff)
    qed
  qed
qed






section \<open>Fragments\<close>





section \<open>Variable declarations\<close>

lemma populate_loop_append:
  "populate_loop sch vs (pre @ rest) =
     (case populate_loop sch vs pre of
        Inl e \<Rightarrow> Inl e
      | Inr vs1 \<Rightarrow> populate_loop sch vs1 rest)"
  by (induction pre arbitrary: vs) (auto split: sum.splits option.splits)

lemma populate_loop_invalid:
  assumes "\<not> vt_nullable (decl_type decl)"
    and "decl_value decl \<noteq> None \<or> null_after_seeding vs decl"
  shows "populate_loop sch vs (decl # post) =
           Inl (if decl_value decl \<noteq> None then default_error decl else missing_error decl)"
proof (cases "decl_value decl")
  case (Some lit)
  with assms(1) show ?thesis by (simp add: default_error_def)
next
  case None
  with assms(2) obtain vs' where
    seed: "seed_default vs decl = Inr vs'"
    and null: "values_of vs' (decl_name decl) = Some PNone"
    by (auto simp: null_after_seeding_def split: sum.splits)
  from null obtain var where
    var: "map_of vs' (decl_name decl) = Some var" and fst: "fst var = PNone"
    by (auto simp: values_of_def)
  from None assms(1) show ?thesis
    by (simp add: seed var fst check_declared_value_def missing_error_def)
qed

text \<open>
  C3 (amended). Let an operation declare a non-nullable variable that supplies a default
  literal, or whose value after default seeding is null (in the environment the
  declarations before it leave, if they pass). Then translating the operation fails, so no
  tree is produced for it. If the operation is a query and the declarations before this
  one pass their checks, the failure is this declaration's validation error: that the
  variable cannot be non-nullable and have a default, or that the non-nullable variable is
  missing a value. If the operation is not a query, the failure is the \<^verbatim>\<open>ValueError\<close> of
  an unsupported definition type.
\<close>

theorem invalid_declaration_fails:
  assumes "op_variables opd = pre @ decl # post"
    and "\<not> vt_nullable (decl_type decl)"
    and "decl_value decl \<noteq> None
         \<or> (\<forall>vs1. populate_loop (self_schema self) (initial_vars variables) pre = Inr vs1
                \<longrightarrow> null_after_seeding vs1 decl)"
  shows "(\<exists>e. translate_operation depth self variables opd = Inl e)
       \<and> (\<forall>vs1. is_query opd
              \<and> populate_loop (self_schema self) (initial_vars variables) pre = Inr vs1 \<longrightarrow>
            translate_operation depth self variables opd =
              Inl (if decl_value decl \<noteq> None then default_error decl
                   else missing_error decl))
       \<and> (\<not> is_query opd \<longrightarrow>
            translate_operation depth self variables opd =
              Inl (ValueError
                     [Lit ''unsupported definition type: '',
                      Repr (case op_type opd of None \<Rightarrow> PNone | Some t \<Rightarrow> PStr t)]))"
proof -
  let ?sch = "self_schema self"
  let ?vs0 = "initial_vars variables"
  have nonquery: "\<not> is_query opd \<Longrightarrow>
            translate_operation depth self variables opd =
              Inl (ValueError
                     [Lit ''unsupported definition type: '',
                      Repr (case op_type opd of None \<Rightarrow> PNone | Some t \<Rightarrow> PStr t)])"
    by (auto simp: translate_operation_def process_definition_def is_query_def)
  have pop: "populate_loop ?sch ?vs0 (op_variables opd) =
               (case populate_loop ?sch ?vs0 pre of
                  Inl e \<Rightarrow> Inl e
                | Inr vs1 \<Rightarrow> populate_loop ?sch vs1 (decl # post))"
    unfolding assms(1) by (rule populate_loop_append)
  have query: "is_query opd \<Longrightarrow>
            translate_operation depth self variables opd =
              (case populate_loop ?sch ?vs0 (op_variables opd) of
                 Inl e \<Rightarrow> Inl e
               | Inr vs \<Rightarrow>
                   translate_operation depth self variables opd)"
    using assms(1)
    by (auto simp: translate_operation_def process_definition_def is_query_def
          populate_variable_defaults_def split: sum.splits)
  have reached: "populate_loop ?sch ?vs0 pre = Inr vs1 \<Longrightarrow>
                 populate_loop ?sch vs1 (decl # post) =
                   Inl (if decl_value decl \<noteq> None then default_error decl
                        else missing_error decl)" for vs1
    using assms(2,3) by (intro populate_loop_invalid) auto
  have exact: "is_query opd \<and> populate_loop ?sch ?vs0 pre = Inr vs1 \<longrightarrow>
            translate_operation depth self variables opd =
              Inl (if decl_value decl \<noteq> None then default_error decl
                   else missing_error decl)" for vs1
  proof
    assume a: "is_query opd \<and> populate_loop ?sch ?vs0 pre = Inr vs1"
    then have "populate_loop ?sch ?vs0 (op_variables opd) =
              Inl (if decl_value decl \<noteq> None then default_error decl
                   else missing_error decl)"
      using reached [of vs1] by (simp add: pop)
    with a query show "translate_operation depth self variables opd =
              Inl (if decl_value decl \<noteq> None then default_error decl
                   else missing_error decl)"
      by simp
  qed
  have fails: "\<exists>e. translate_operation depth self variables opd = Inl e"
  proof (cases "is_query opd")
    case False
    with nonquery show ?thesis by blast
  next
    case True
    show ?thesis
    proof (cases "populate_loop ?sch ?vs0 pre")
      case (Inl e)
      with True query show ?thesis by (simp add: pop)
    next
      case (Inr vs1)
      with True exact [of vs1] show ?thesis by blast
    qed
  qed
  from fails exact nonquery show ?thesis by blast
qed

text \<open>
  C3 as stated fails: a mutation that declares \<^verbatim>\<open>$x: Int! = 3\<close> fails with
  \<^verbatim>\<open>ValueError\<close>, not with a validation error of the declaration.
\<close>

theorem mutation_declaration_counterexample:
  "translate_operation 3 example_translator []
     (OperationDefinition None (Some ''mutation'')
        [VariableDefinition ''$x'' (VariableType (TypeName ''Int'') False False)
           (Some (ScalarLiteral (PInt 3)))] [] []) =
   Inl (ValueError [Lit ''unsupported definition type: '', Repr (PStr ''mutation'')])"
  by (simp add: translate_operation_def process_definition_def)

text \<open>The query \<^verbatim>\<open>query($x: Int! = 3) { User { name } }\<close>.\<close>

theorem invalid_declaration_fails_witness:
  "op_variables
     (OperationDefinition None None
        [VariableDefinition ''$x'' (VariableType (TypeName ''Int'') False False)
           (Some (ScalarLiteral (PInt 3)))] []
        [SelField (Field ''User'' [] [] (Some [SelField (Field ''name'' [] [] None)]))]) =
     [] @ VariableDefinition ''$x'' (VariableType (TypeName ''Int'') False False)
            (Some (ScalarLiteral (PInt 3))) # []
   \<and> translate_operation 3 example_translator []
     (OperationDefinition None None
        [VariableDefinition ''$x'' (VariableType (TypeName ''Int'') False False)
           (Some (ScalarLiteral (PInt 3)))] []
        [SelField (Field ''User'' [] [] (Some [SelField (Field ''name'' [] [] None)]))]) =
     Inl (GraphQLValidationError
            [Lit ''variable '', Repr (PStr ''$x''),
             Lit '' cannot be non-nullable and have a default''])"
proof -
  let ?decl = "VariableDefinition ''$x'' (VariableType (TypeName ''Int'') False False)
           (Some (ScalarLiteral (PInt 3)))"
  let ?opd = "OperationDefinition None None [?decl] []
        [SelField (Field ''User'' [] [] (Some [SelField (Field ''name'' [] [] None)]))]"
  have v: "op_variables ?opd = [] @ ?decl # []" by simp
  have n: "\<not> vt_nullable (decl_type ?decl)" by simp
  have d: "decl_value ?decl \<noteq> None
         \<or> (\<forall>vs1. populate_loop (self_schema example_translator) (initial_vars []) [] = Inr vs1
                \<longrightarrow> null_after_seeding vs1 ?decl)"
    by simp
  have q: "is_query ?opd \<and>
           populate_loop (self_schema example_translator) (initial_vars []) [] =
             Inr (initial_vars [])"
    by (simp add: is_query_def)
  from invalid_declaration_fails [OF v n d, of 3, THEN conjunct2, THEN conjunct1,
           THEN spec, THEN mp, OF q]
  have "translate_operation 3 example_translator [] ?opd = Inl (default_error ?decl)"
    by simp
  then have "translate_operation 3 example_translator [] ?opd =
     Inl (GraphQLValidationError
            [Lit ''variable '', Repr (PStr ''$x''),
             Lit '' cannot be non-nullable and have a default''])"
    by (simp add: default_error_def)
  with v show ?thesis by (rule conjI)
qed

section \<open>Critical variables\<close>

lemma marks_Nil [simp]: "marks self self []"
  by (simp add: marks_def)

lemma marks_trans:
  "marks a b xs \<Longrightarrow> marks b c ys \<Longrightarrow> marks a c (xs @ ys)"
  by (auto simp: marks_def marked_append)

lemma marks_frame:
  assumes "marks a b xs"
  shows "self_schema b = self_schema a" "self_fragments b = self_fragments a"
    "values_of (self_vars b) = values_of (self_vars a)"
  using assms by (simp_all add: marks_def)

lemma should_include_marks':
  "should_include self ds = Inr (b, self') \<Longrightarrow>
   marks self self' (directive_reads (values_of (self_vars self)) ds)
   \<and> b = selected (values_of (self_vars self)) ds"
  using should_include_marks [of self ds b self'] by (simp add: marks_def)

lemma process_field_marks:
  assumes H: "\<And>self base sels ps self'.
      process_pathspec d self base sels = Inr (ps, self') \<Longrightarrow>
      marks self self' (reads_pathspec d (self_fragments self) (values_of (self_vars self)) sels)"
    and run: "process_field d self base f = Inr (spec, self')"
  shows "marks self self'
           (case field_selection_set f of
              None \<Rightarrow> []
            | Some nested \<Rightarrow>
                reads_pathspec d (self_fragments self) (values_of (self_vars self)) nested)"
  using run by (auto split: sum.splits option.splits dest: H)

lemma process_inline_fragment_marks:
  assumes H: "\<And>self base sels ps self'.
      process_pathspec d self base sels = Inr (ps, self') \<Longrightarrow>
      marks self self' (reads_pathspec d (self_fragments self) (values_of (self_vars self)) sels)"
    and run: "process_inline_fragment d self base i = Inr (ps, self')"
  shows "marks self self'
           (reads_pathspec d (self_fragments self) (values_of (self_vars self))
              (inline_selections i))"
  using run by (auto split: sum.splits dest: H)

lemma process_spread_marks:
  assumes H: "\<And>self base sels ps self'.
      process_pathspec d self base sels = Inr (ps, self') \<Longrightarrow>
      marks self self' (reads_pathspec d (self_fragments self) (values_of (self_vars self)) sels)"
    and run: "process_spread d self base s = Inr (ps, self')"
  shows "marks self self'
           (case map_of (self_fragments self) (spread_name s) of
              None \<Rightarrow> []
            | Some frag \<Rightarrow>
                reads_pathspec d (self_fragments self) (values_of (self_vars self))
                  (fragdef_selections frag))"
  using run by (auto split: sum.splits option.splits dest: H)

lemma process_pathspec_step_marks:
  assumes H: "\<And>self base sels ps self'.
      process_pathspec d self base sels = Inr (ps, self') \<Longrightarrow>
      marks self self' (reads_pathspec d (self_fragments self) (values_of (self_vars self)) sels)"
  shows "process_pathspec (Suc d) self base sels = Inr (ps, self') \<Longrightarrow>
         marks self self'
           (reads_pathspec (Suc d) (self_fragments self) (values_of (self_vars self)) sels)"
proof (induction sels arbitrary: self ps self')
  case Nil
  then show ?case by simp
next
  case (Cons sel sels)
  let ?fr = "self_fragments self"
  let ?vals = "values_of (self_vars self)"
  from Cons.prems obtain incl self1 where
    si: "should_include self (sel_directives sel) = Inr (incl, self1)"
    by (auto split: sum.splits)
  from should_include_marks' [OF si] have
    m1: "marks self self1 (directive_reads ?vals (sel_directives sel))"
    and incl: "incl = selected ?vals (sel_directives sel)"
    by simp_all
  note fr1 = marks_frame [OF m1]
  show ?case
  proof (cases incl)
    case False
    with Cons.prems si have "process_pathspec (Suc d) self1 base sels = Inr (ps, self')"
      by simp
    from Cons.IH [OF this] have
      "marks self1 self' (reads_pathspec (Suc d) ?fr ?vals sels)"
      by (simp add: fr1)
    from marks_trans [OF m1 this] False incl show ?thesis by simp
  next
    case True
    let ?nested = "case sel of
              SelField f \<Rightarrow>
                (case field_selection_set f of
                   None \<Rightarrow> []
                 | Some nested \<Rightarrow> reads_pathspec d ?fr ?vals nested)
            | SelInline i \<Rightarrow> reads_pathspec d ?fr ?vals (inline_selections i)
            | SelSpread s \<Rightarrow>
                (case map_of ?fr (spread_name s) of
                   None \<Rightarrow> []
                 | Some frag \<Rightarrow> reads_pathspec d ?fr ?vals (fragdef_selections frag))"
    from Cons.prems si True obtain specs self2 others where
      inner: "(case sel of
                 SelField f \<Rightarrow>
                   (case process_field d self1 base f of
                      Inl e \<Rightarrow> Inl e
                    | Inr (spec, self2) \<Rightarrow> Inr ([spec], self2))
               | SelInline i \<Rightarrow> process_inline_fragment d self1 base i
               | SelSpread s \<Rightarrow> process_spread d self1 base s) = Inr (specs, self2)"
      and rest: "process_pathspec (Suc d) self2 base sels = Inr (others, self')"
      by (auto split: sum.splits simp del: process_field.simps process_inline_fragment.simps
            process_spread.simps)
    have m2: "marks self1 self2 ?nested"
    proof (cases sel)
      case (SelField f)
      with inner obtain spec where "process_field d self1 base f = Inr (spec, self2)"
        by (auto split: sum.splits simp del: process_field.simps)
      then have "marks self1 self2
           (case field_selection_set f of
              None \<Rightarrow> []
            | Some nested \<Rightarrow>
                reads_pathspec d (self_fragments self1) (values_of (self_vars self1)) nested)"
        by (rule process_field_marks [rotated]) (erule H)
      then show ?thesis unfolding fr1(2) fr1(3) SelField by simp
    next
      case (SelInline i)
      with inner have "process_inline_fragment d self1 base i = Inr (specs, self2)"
        by simp
      then have "marks self1 self2
           (reads_pathspec d (self_fragments self1) (values_of (self_vars self1))
              (inline_selections i))"
        by (rule process_inline_fragment_marks [rotated]) (erule H)
      then show ?thesis unfolding fr1(2) fr1(3) SelInline by simp
    next
      case (SelSpread s)
      with inner have "process_spread d self1 base s = Inr (specs, self2)"
        by simp
      then have "marks self1 self2
           (case map_of (self_fragments self1) (spread_name s) of
              None \<Rightarrow> []
            | Some frag \<Rightarrow>
                reads_pathspec d (self_fragments self1) (values_of (self_vars self1))
                  (fragdef_selections frag))"
        by (rule process_spread_marks [rotated]) (erule H)
      then show ?thesis unfolding fr1(2) fr1(3) SelSpread by simp
    qed
    note fr2 = marks_frame [OF m2]
    from Cons.IH [OF rest] have
      m3: "marks self2 self' (reads_pathspec (Suc d) ?fr ?vals sels)"
      by (simp add: fr1 fr2)
    from marks_trans [OF m1 marks_trans [OF m2 m3]] True incl show ?thesis
      by simp
  qed
qed

lemma process_pathspec_marks:
  "process_pathspec d self base sels = Inr (ps, self') \<Longrightarrow>
   marks self self' (reads_pathspec d (self_fragments self) (values_of (self_vars self)) sels)"
proof (induction d arbitrary: self base sels ps self')
  case 0
  then show ?case by simp
next
  case (Suc d)
  from Suc.prems show ?case
    by (rule process_pathspec_step_marks [rotated]) (erule Suc.IH)
qed

lemma set_update_subset: "e \<in> set (AList.update k v al) \<Longrightarrow> e = (k, v) \<or> e \<in> set al"
  by (induction al) (auto split: if_splits)

lemma clean_update: "clean vs \<Longrightarrow> clean (AList.update k (v, False) vs)"
  by (auto simp: clean_def distinct_update dest: set_update_subset)

lemma clean_initial_vars: "clean (initial_vars variables)"
proof -
  have "clean table \<Longrightarrow>
        clean (foldl (\<lambda>table item. AList.update (fst item) (snd item, False) table)
                 table variables)" for table
    by (induction variables arbitrary: table) (simp_all add: clean_update)
  moreover have "clean []" by (simp add: clean_def)
  ultimately show ?thesis unfolding initial_vars_def by blast
qed

lemma clean_seed_default: "clean vs \<Longrightarrow> seed_default vs decl = Inr vs' \<Longrightarrow> clean vs'"
  by (auto simp: seed_default_def clean_update split: if_splits option.splits sum.splits)

lemma clean_populate_loop: "clean vs \<Longrightarrow> populate_loop sch vs decls = Inr vs' \<Longrightarrow> clean vs'"
proof (induction decls arbitrary: vs)
  case Nil
  then show ?case by simp
next
  case (Cons decl decls)
  from Cons.prems(2) obtain vs1 where
    seed: "seed_default vs decl = Inr vs1"
    and rest: "populate_loop sch vs1 decls = Inr vs'"
    by (auto split: if_splits sum.splits option.splits)
  from clean_seed_default [OF Cons.prems(1) seed] rest show ?case
    by (rule Cons.IH)
qed

lemma populate_variable_defaults_frame:
  assumes "populate_variable_defaults self decls = Inr self1"
    and "clean (self_vars self)"
  shows "clean (self_vars self1) \<and> self_fragments self1 = self_fragments self
       \<and> self_schema self1 = self_schema self"
  using assms
  by (auto simp: populate_variable_defaults_def split: if_splits sum.splits
           dest: clean_populate_loop)

lemma mark_map:
  assumes "distinct (map fst vs)"
  shows "mark n vs = map (\<lambda>e. (fst e, fst (snd e), snd (snd e) \<or> fst e = n)) vs"
  using assms
proof (induction vs)
  case Nil
  then show ?case by (simp add: mark_def)
next
  case (Cons p ps)
  show ?case
  proof (cases "fst p = n")
    case True
    with Cons.prems have "n \<notin> fst ` set ps" by auto
    then have "map (\<lambda>e. (fst e, fst (snd e), snd (snd e) \<or> fst e = n)) ps = ps"
      by (induction ps) auto
    with True show ?thesis by (simp add: mark_def)
  next
    case False
    from Cons.prems have "distinct (map fst ps)" by simp
    from Cons.IH [OF this] False show ?thesis
      by (auto simp: mark_def split: option.splits)
  qed
qed

lemma marked_map:
  "distinct (map fst vs) \<Longrightarrow>
   foldl (\<lambda>vs n. mark n vs) vs names =
     map (\<lambda>e. (fst e, fst (snd e), snd (snd e) \<or> fst e \<in> set names)) vs"
proof (induction names arbitrary: vs)
  case Nil
  then show ?case by (simp add: map_idI)
next
  case (Cons n names)
  have d: "distinct (map fst (mark n vs))" using Cons.prems by simp
  have "foldl (\<lambda>vs n. mark n vs) vs (n # names) = foldl (\<lambda>vs n. mark n vs) (mark n vs) names"
    by simp
  also have "\<dots> = map (\<lambda>e. (fst e, fst (snd e), snd (snd e) \<or> fst e \<in> set names)) (mark n vs)"
    by (rule Cons.IH [OF d])
  also have "\<dots> = map (\<lambda>e. (fst e, fst (snd e), snd (snd e) \<or> fst e \<in> set (n # names))) vs"
    unfolding mark_map [OF Cons.prems] by auto
  finally show ?case .
qed

lemma distinct_map_sort_key: "distinct (map f (sort_key f xs)) = distinct (map f xs)"
  by (simp add: distinct_map)

lemma critical_vars_marked:
  assumes "clean vs" and "set names \<subseteq> fst ` set vs"
  shows "sorted (map fst (critical_vars (foldl (\<lambda>vs n. mark n vs) vs names)))"
    and "distinct (map fst (critical_vars (foldl (\<lambda>vs n. mark n vs) vs names)))"
    and "set (map fst (critical_vars (foldl (\<lambda>vs n. mark n vs) vs names))) = set names"
    and "\<forall>nv\<in>set (critical_vars (foldl (\<lambda>vs n. mark n vs) vs names)).
           values_of vs (fst nv) = Some (snd nv)"
proof -
  from assms(1) have d: "distinct (map fst vs)" and f: "\<forall>e\<in>set vs. \<not> snd (snd e)"
    by (simp_all add: clean_def)
  let ?m = "foldl (\<lambda>vs n. mark n vs) vs names"
  let ?sel = "map (\<lambda>entry. (fst entry, fst (snd entry))) (filter (\<lambda>entry. snd (snd entry)) ?m)"
  have sel: "?sel = map (\<lambda>e. (fst e, fst (snd e))) (filter (\<lambda>e. fst e \<in> set names) vs)"
    unfolding marked_map [OF d] using f by (induction vs) auto
  have cv: "critical_vars ?m = sort_key fst ?sel"
    by (simp add: critical_vars_def)
  show "sorted (map fst (critical_vars ?m))"
    unfolding cv by (rule sorted_sort_key)
  have dsel: "distinct (map fst ?sel)"
    unfolding sel using d by (induction vs) auto
  then show "distinct (map fst (critical_vars ?m))"
    unfolding cv distinct_map_sort_key .
  show "set (map fst (critical_vars ?m)) = set names"
    unfolding cv sel using assms(2) by force
  show "\<forall>nv\<in>set (critical_vars ?m). values_of vs (fst nv) = Some (snd nv)"
    unfolding cv sel using d by (auto simp: values_of_def)
qed

lemma select_query_marks:
  assumes "select_query depth self modname sel = Inr (q, self')"
  shows "marks self self'
           (reads_top depth (self_fragments self) (values_of (self_vars self)) sel)"
proof (cases sel)
  case (SelField f)
  with assms obtain sels shape where
    ss: "field_selection_set f = Some sels"
    and run: "process_pathspec depth self [field_name f] sels = Inr (shape, self')"
    by (auto simp: select_query_def split: sum.splits option.splits)
  from process_pathspec_marks [OF run] SelField ss show ?thesis
    by (simp add: reads_top_def)
next
  case (SelInline i)
  with assms show ?thesis by (simp add: select_query_def)
next
  case (SelSpread s)
  with assms show ?thesis by (simp add: select_query_def split: option.splits)
qed

lemma process_selections_marks:
  "process_selections depth self modname acc sels = Inr (r, self') \<Longrightarrow>
   marks self self'
     (concat (map (reads_top depth (self_fragments self) (values_of (self_vars self))) sels))"
proof (induction sels arbitrary: self acc)
  case Nil
  then show ?case by simp
next
  case (Cons sel sels)
  from Cons.prems obtain q self1 acc' where
    sq: "select_query depth self modname sel = Inr (q, self1)"
    and rest: "process_selections depth self1 modname acc' sels = Inr (r, self')"
    by (auto split: sum.splits)
  note m1 = select_query_marks [OF sq]
  note fr = marks_frame [OF m1]
  from Cons.IH [OF rest] have
    m2: "marks self1 self'
           (concat (map (reads_top depth (self_fragments self) (values_of (self_vars self)))
                      sels))"
    by (simp add: fr)
  from marks_trans [OF m1 m2] show ?case by simp
qed

text \<open>
  C1. When the translation of an operation succeeds, its list of critical variables is
  sorted by variable name without repetition; the names in it are exactly the variables
  whose value was read in the condition of an \<^verbatim>\<open>include\<close> or \<^verbatim>\<open>skip\<close> directive
  during the translation (\<open>reads_operation\<close>: every directive that was evaluated counts,
  whichever way its condition went, and arguments never count); and each name comes with
  the variable's current value.
\<close>

theorem critical_variables_are_condition_reads:
  assumes "translate_operation depth self variables opd = Inr ((query, critvars), self')"
  shows "sorted (map fst critvars) \<and> distinct (map fst critvars)
       \<and> set (map fst critvars) =
           set (reads_operation depth (self_fragments self) (values_of (self_vars self')) opd)
       \<and> (\<forall>nv\<in>set critvars. values_of (self_vars self') (fst nv) = Some (snd nv))"
proof -
  let ?self0 = "self\<lparr>self_vars := initial_vars variables\<rparr>"
  from assms have pd: "process_definition depth ?self0 opd = Inr (query, self')"
    and cv: "critvars = critical_vars (self_vars self')"
    by (auto simp: translate_operation_def split: sum.splits)
  from pd obtain self1 modname where
    pop: "populate_variable_defaults ?self0 (op_variables opd) = Inr self1"
    and sel: "process_selections depth self1 modname None (op_selections opd) =
                Inr (query, self')"
    by (auto simp: process_definition_def split: if_splits sum.splits)
  have "clean (self_vars ?self0)" by (simp add: clean_initial_vars)
  from populate_variable_defaults_frame [OF pop this] have
    c1: "clean (self_vars self1)" and f1: "self_fragments self1 = self_fragments self"
    by simp_all
  let ?R = "reads_operation depth (self_fragments self) (values_of (self_vars self1)) opd"
  from process_selections_marks [OF sel] have m: "marks self1 self' ?R"
    by (simp add: reads_operation_def f1)
  then have vars: "self_vars self' = foldl (\<lambda>vs n. mark n vs) (self_vars self1) ?R"
    and sub: "set ?R \<subseteq> fst ` set (self_vars self1)"
    by (simp_all add: marks_def marked_def)
  from marks_frame(3) [OF m] have vals: "values_of (self_vars self') = values_of (self_vars self1)" .
  note facts = critical_vars_marked [OF c1 sub]
  show ?thesis
    unfolding cv vals unfolding vars
    using facts by (intro conjI)
qed

text \<open>
  The example query with \<^verbatim>\<open>$yes\<close> and \<^verbatim>\<open>$no\<close> both true and \<^verbatim>\<open>$age\<close> 3: the
  field \<^verbatim>\<open>name\<close> is skipped and \<^verbatim>\<open>score\<close> is included; both condition variables are
  critical, in the order of their names, and \<^verbatim>\<open>$age\<close>, used in the filter only, is not.
\<close>

theorem critical_variables_are_condition_reads_witness:
  "\<exists>self'.
     translate_operation 5 example_translator
       [(''$yes'', PBool True), (''$age'', PInt 3), (''$no'', PBool True)] critical_example =
     Inr ((Some
        (SelectQueryNode [NamespaceAliasDeclNode (Val PNone)]
          [SelectExprNode
            (PathNode [PathStepNode ''User'']
              (Some
                [SelectPathSpecNode (LinkExprNode (LinkNode ''score'')) None None,
                 SelectPathSpecNode (LinkExprNode (LinkNode ''age'')) None None]))]
          (Some
            (BinOpNode
              (PathNode [PathStepNode ''User'', LinkExprNode (LinkNode ''age'')] None)
              EQ (ConstantNode PNone (Some ''age''))))
          None None None),
       [(''$no'', PBool True), (''$yes'', PBool True)]), self')
   \<and> set (map fst [(''$no'', PBool True), (''$yes'', PBool True)]) =
       set (reads_operation 5 (self_fragments example_translator)
              (values_of (self_vars self')) critical_example)"
proof -
  let ?q = "Some
        (SelectQueryNode [NamespaceAliasDeclNode (Val PNone)]
          [SelectExprNode
            (PathNode [PathStepNode ''User'']
              (Some
                [SelectPathSpecNode (LinkExprNode (LinkNode ''score'')) None None,
                 SelectPathSpecNode (LinkExprNode (LinkNode ''age'')) None None]))]
          (Some
            (BinOpNode
              (PathNode [PathStepNode ''User'', LinkExprNode (LinkNode ''age'')] None)
              EQ (ConstantNode PNone (Some ''age''))))
          None None None)"
  let ?cv = "[(''$no'', PBool True), (''$yes'', PBool True)]"
  have "map_sum id fst
          (translate_operation 5 example_translator
             [(''$yes'', PBool True), (''$age'', PInt 3), (''$no'', PBool True)]
             critical_example) = Inr (?q, ?cv)"
    by code_simp
  then obtain self' where
    h: "translate_operation 5 example_translator
          [(''$yes'', PBool True), (''$age'', PInt 3), (''$no'', PBool True)]
          critical_example = Inr ((?q, ?cv), self')"
    by (cases "translate_operation 5 example_translator
          [(''$yes'', PBool True), (''$age'', PInt 3), (''$no'', PBool True)]
          critical_example") auto
  from critical_variables_are_condition_reads [OF h] h show ?thesis
    by (intro exI [of _ self'] conjI) simp_all
qed

end
